theory Spec2Isabelle
  imports Complex_Main "HOL-Library.Word" "HOL-Library.Multiset" "HOL-Library.Sublist"
    "HOL-Library.Monad_Syntax"
begin

section \<open>Web client: app.js\<close>

subsection \<open>JavaScript strings\<close>

text \<open>
  A JavaScript string is a sequence of 16-bit code units. String literals of the source
  are ASCII and are written here with \<open>lit\<close>.
\<close>

type_synonym js_string = "16 word list"

definition lit :: "string \<Rightarrow> js_string" where
  "lit s = map (\<lambda>c. of_nat (of_char c)) s"

definition LT :: "16 word" where "LT = 0x3C"
definition GT :: "16 word" where "GT = 0x3E"
definition AMP :: "16 word" where "AMP = 0x26"
definition NBSP :: "16 word" where "NBSP = 0xA0"
definition SLASH :: "16 word" where "SLASH = 0x2F"
definition NL :: "16 word" where "NL = 0x0A"

subsection \<open>escapeHtml\<close>

text \<open>
  \<^verbatim>\<open>function escapeHtml(text) { const div = document.createElement('div');
     div.textContent = text; return div.innerHTML; }\<close>
  The div holds one text node with the given data; reading \<open>innerHTML\<close> serialises it
  with the HTML fragment serialisation algorithm, which escapes a text node's data by
  replacing \<open>&\<close>, U+00A0, \<open><\<close> and \<open>>\<close> and copying every other code unit.
\<close>

definition escape_unit :: "16 word \<Rightarrow> js_string" where
  "escape_unit c =
     (if c = AMP then lit ''&amp;''
      else if c = NBSP then lit ''&nbsp;''
      else if c = LT then lit ''&lt;''
      else if c = GT then lit ''&gt;''
      else [c])"

primrec escapeHtml :: "js_string \<Rightarrow> js_string" where
  "escapeHtml [] = []"
| "escapeHtml (c # cs) = escape_unit c @ escapeHtml cs"

subsection \<open>addMessageToUI\<close>

text \<open>
  The element appended to the \<open>messages\<close> container: its class name and the markup
  assigned to its \<open>innerHTML\<close>. \<open>route\<close> is \<open>None\<close> for \<open>null\<close>.
\<close>

record message_div =
  className :: js_string
  innerHTML :: js_string

definition headerText :: "js_string \<Rightarrow> js_string" where
  "headerText role = (if role = lit ''user'' then lit ''You'' else lit ''Guru'')"

definition routeBadge :: "js_string option \<Rightarrow> js_string" where
  "routeBadge route =
     (case route of
        None \<Rightarrow> []
      | Some r \<Rightarrow>
          if r \<noteq> [] \<and> r \<noteq> lit ''general'' \<and> r \<noteq> lit ''error''
          then lit ''<span class=\"route-badge\">'' @ r @ lit ''</span>''
          else [])"

text \<open>\<open>url.split('/').pop()\<close>: the part of the url after its last slash.\<close>

definition split_pop :: "js_string \<Rightarrow> js_string" where
  "split_pop url = rev (takeWhile (\<lambda>c. c \<noteq> SLASH) (rev url))"

definition imgTag :: "js_string \<Rightarrow> js_string" where
  "imgTag url =
     lit ''<img src=\"'' @ url @ lit ''\" onclick=\"openMarkup('' @ split_pop url
       @ lit '')\" alt=\"Uploaded image\">''"

definition imagesHtml :: "js_string list \<Rightarrow> js_string" where
  "imagesHtml imageUrls =
     (if imageUrls \<noteq> []
      then lit ''<div class=\"message-images\">'' @ concat (map imgTag imageUrls) @ lit ''</div>''
      else [])"

definition indent :: "nat \<Rightarrow> js_string" where
  "indent n = NL # replicate n 0x20"

definition messageHeader :: "js_string \<Rightarrow> js_string option \<Rightarrow> js_string" where
  "messageHeader role route =
     lit ''<div class=\"message-header\">'' @ headerText role @ routeBadge route @ lit ''</div>''"

definition messageBody :: "js_string \<Rightarrow> js_string" where
  "messageBody content = lit ''<div class=\"message-body\">'' @ escapeHtml content @ lit ''</div>''"

definition addMessageToUI ::
  "message_div list \<Rightarrow> js_string \<Rightarrow> js_string \<Rightarrow> js_string list \<Rightarrow> js_string option
     \<Rightarrow> message_div list" where
  "addMessageToUI container role content imageUrls route =
     container @
       [\<lparr>className = lit ''message '' @ role,
         innerHTML = indent 8 @ messageHeader role route
                   @ indent 8 @ messageBody content
                   @ indent 8 @ imagesHtml imageUrls
                   @ indent 4\<rparr>]"

subsection \<open>removeAttachment\<close>

text \<open>
  \<^verbatim>\<open>pendingImageIds = pendingImageIds.filter(id => id !== imageId);\<close>
  Image ids are the integer keys of \<open>uploaded_images\<close>.
\<close>

definition removeAttachment :: "int list \<Rightarrow> int \<Rightarrow> int list" where
  "removeAttachment pendingImageIds imageId = filter (\<lambda>i. i \<noteq> imageId) pendingImageIds"

section \<open>Web client: canvas markup\<close>

text \<open>The annotation objects pushed by the mouse handlers, and the two lists of \<open>canvasState\<close>
  that the undo button touches, with the rest of the state.\<close>

datatype annotation =
    Freehand "(real \<times> real) list" js_string real
  | Line real real real real js_string real
  | Arrow real real real real js_string real
  | Rect real real real real js_string real
  | Text real real js_string js_string real

record canvas_state =
  imageId :: "int option"
  tool :: js_string
  color :: js_string
  lineWidth :: real
  isDrawing :: bool
  startX :: real
  startY :: real
  annotations :: "annotation list"
  undoStack :: "annotation list"

text \<open>
  \<^verbatim>\<open>if (canvasState.annotations.length) {
      canvasState.undoStack.push(canvasState.annotations.pop()); redrawCanvas(); }\<close>
  \<open>pop\<close> removes and returns the last element, \<open>push\<close> appends; \<open>redrawCanvas\<close> only paints.
\<close>

definition array_pop :: "'a list \<Rightarrow> 'a option \<times> 'a list" where
  "array_pop xs = (case rev xs of [] \<Rightarrow> (None, []) | x # r \<Rightarrow> (Some x, rev r))"

definition undoBtn_onclick :: "canvas_state \<Rightarrow> canvas_state" where
  "undoBtn_onclick s =
     (if length (annotations s) \<noteq> 0
      then (case array_pop (annotations s) of
              (Some a, rest) \<Rightarrow> s\<lparr>annotations := rest, undoStack := undoStack s @ [a]\<rparr>
            | (None, rest) \<Rightarrow> s\<lparr>annotations := rest\<rparr>)
      else s)"

section \<open>Database: schema.sql and the migrations\<close>

subsection \<open>Values, errors and rows\<close>

text \<open>
  Row ids are SQLite integers, \<open>TEXT\<close> columns are strings, \<open>REAL\<close> columns are reals. A
  nullable column is an \<open>option\<close>. In an \<open>INSERT\<close>, a column that has a \<open>DEFAULT\<close> is left
  out, given as \<open>NULL\<close>, or given a value; a column without one is \<open>NULL\<close> or a value.
  A failed constraint aborts the statement with one of the \<open>SQLITE_CONSTRAINT\<close> errors.
\<close>

type_synonym rowid = int
type_synonym sql_text = string

datatype 'a supplied = Omitted | Null | Given 'a

datatype sql_error =
  NotNullViolation | CheckViolation | PrimaryKeyViolation | UniqueViolation | ForeignKeyViolation

fun resolve :: "'a supplied \<Rightarrow> 'a \<Rightarrow> 'a option" where
  "resolve Omitted d = Some d"
| "resolve Null d = None"
| "resolve (Given x) d = Some x"

record channel =
  ch_id :: rowid
  ch_channel_id :: sql_text
  ch_channel_name :: sql_text
  ch_channel_url :: sql_text
  ch_description :: "sql_text option"
  ch_subscriber_count :: "int option"
  ch_video_count :: "int option"
  ch_thumbnail_url :: "sql_text option"
  ch_created_at :: sql_text
  ch_updated_at :: sql_text

record channel_values =
  chv_channel_id :: "sql_text option"
  chv_channel_name :: "sql_text option"
  chv_channel_url :: "sql_text option"
  chv_description :: "sql_text option"
  chv_subscriber_count :: "int option"
  chv_video_count :: "int option"
  chv_thumbnail_url :: "sql_text option"
  chv_created_at :: "sql_text supplied"
  chv_updated_at :: "sql_text supplied"

record video =
  v_id :: rowid
  v_video_id :: sql_text
  v_channel_id :: rowid
  v_title :: sql_text
  v_description :: "sql_text option"
  v_published_at :: "sql_text option"
  v_duration_seconds :: "int option"
  v_view_count :: "int option"
  v_like_count :: "int option"
  v_thumbnail_url :: "sql_text option"
  v_ingestion_status :: sql_text
  v_failure_reason :: "sql_text option"
  v_created_at :: sql_text
  v_updated_at :: sql_text

record video_values =
  vv_video_id :: "sql_text option"
  vv_channel_id :: "rowid option"
  vv_title :: "sql_text option"
  vv_description :: "sql_text option"
  vv_published_at :: "sql_text option"
  vv_duration_seconds :: "int option"
  vv_view_count :: "int option"
  vv_like_count :: "int option"
  vv_thumbnail_url :: "sql_text option"
  vv_ingestion_status :: "sql_text supplied"
  vv_failure_reason :: "sql_text option"
  vv_created_at :: "sql_text supplied"
  vv_updated_at :: "sql_text supplied"

record transcript =
  t_id :: rowid
  t_video_id :: rowid
  t_language_code :: sql_text
  t_is_generated :: bool
  t_full_text :: sql_text
  t_snippet_data :: sql_text
  t_word_count :: int
  t_created_at :: sql_text

record transcript_values =
  tv_video_id :: "rowid option"
  tv_language_code :: "sql_text supplied"
  tv_is_generated :: "bool supplied"
  tv_full_text :: "sql_text option"
  tv_snippet_data :: "sql_text option"
  tv_word_count :: "int option"
  tv_created_at :: "sql_text supplied"

record knowledge_entry =
  k_id :: rowid
  k_video_id :: rowid
  k_entry_type :: sql_text
  k_title :: sql_text
  k_content :: sql_text
  k_source_start_time :: "real option"
  k_source_end_time :: "real option"
  k_source_quote :: "sql_text option"
  k_confidence :: real
  k_chunk_index :: "int option"
  k_created_at :: sql_text

record knowledge_values =
  kv_video_id :: "rowid option"
  kv_entry_type :: "sql_text option"
  kv_title :: "sql_text option"
  kv_content :: "sql_text option"
  kv_source_start_time :: "real option"
  kv_source_end_time :: "real option"
  kv_source_quote :: "sql_text option"
  kv_confidence :: "real supplied"
  kv_chunk_index :: "int option"
  kv_created_at :: "sql_text supplied"

record processing_log_entry =
  pl_id :: rowid
  pl_video_id :: rowid
  pl_step :: sql_text
  pl_chunk_index :: "int option"
  pl_status :: sql_text
  pl_tokens_used :: "int option"
  pl_error_message :: "sql_text option"
  pl_started_at :: sql_text
  pl_completed_at :: "sql_text option"

record processing_log_values =
  plv_video_id :: "rowid option"
  plv_step :: "sql_text option"
  plv_chunk_index :: "int option"
  plv_status :: "sql_text option"
  plv_tokens_used :: "int option"
  plv_error_message :: "sql_text option"
  plv_started_at :: "sql_text supplied"
  plv_completed_at :: "sql_text option"

record bias_flag =
  b_id :: rowid
  b_knowledge_id :: rowid
  b_bias_type :: sql_text
  b_bias_severity :: sql_text
  b_brand_names :: "sql_text option"
  b_bias_notes :: sql_text
  b_detected_by :: sql_text
  b_created_at :: sql_text

record bias_flag_values =
  bv_knowledge_id :: "rowid option"
  bv_bias_type :: "sql_text option"
  bv_bias_severity :: "sql_text supplied"
  bv_brand_names :: "sql_text option"
  bv_bias_notes :: "sql_text option"
  bv_detected_by :: "sql_text supplied"
  bv_created_at :: "sql_text supplied"

record queue_item =
  q_id :: rowid
  q_action_type :: sql_text
  q_severity :: sql_text
  q_status :: sql_text
  q_target_type :: sql_text
  q_target_id :: "int option"
  q_description :: sql_text
  q_details :: "sql_text option"
  q_created_at :: sql_text
  q_resolved_at :: "sql_text option"
  q_resolved_by :: "sql_text option"

record queue_values =
  qv_action_type :: "sql_text option"
  qv_severity :: "sql_text supplied"
  qv_status :: "sql_text supplied"
  qv_target_type :: "sql_text option"
  qv_target_id :: "int option"
  qv_description :: "sql_text option"
  qv_details :: "sql_text option"
  qv_created_at :: "sql_text supplied"
  qv_resolved_at :: "sql_text option"
  qv_resolved_by :: "sql_text option"

subsection \<open>The store\<close>

text \<open>
  The tables the pipeline writes and the three FTS5 indexes. An index is the list of the
  documents it has been given, each under its rowid: the indexes have external content
  (\<open>content='knowledge_entries'\<close> and so on), so they hold only what the triggers insert.
  The categorisation tables, \<open>optimization_log\<close> and the chat tables of migration 002
  have no index and no trigger and are left out.
\<close>

type_synonym knowledge_doc = "sql_text \<times> sql_text \<times> sql_text option"
type_synonym transcript_doc = sql_text
type_synonym video_doc = "sql_text \<times> sql_text option"

record db =
  channels :: "channel list"
  videos :: "video list"
  transcripts :: "transcript list"
  knowledge_entries :: "knowledge_entry list"
  processing_log :: "processing_log_entry list"
  bias_flags :: "bias_flag list"
  optimization_queue :: "queue_item list"
  knowledge_fts :: "(rowid \<times> knowledge_doc) list"
  transcript_fts :: "(rowid \<times> transcript_doc) list"
  video_fts :: "(rowid \<times> video_doc) list"

definition empty_db :: db where
  "empty_db = \<lparr>channels = [], videos = [], transcripts = [], knowledge_entries = [],
     processing_log = [], bias_flags = [], optimization_queue = [],
     knowledge_fts = [], transcript_fts = [], video_fts = []\<rparr>"

subsection \<open>Full-text indexes and their triggers\<close>

text \<open>
  \<^verbatim>\<open>INSERT INTO knowledge_fts(rowid, title, content, source_quote) VALUES (...)\<close> adds a
  document; \<^verbatim>\<open>INSERT INTO knowledge_fts(knowledge_fts, rowid, ...) VALUES ('delete', ...)\<close>
  is the FTS5 delete command: given the rowid and the column values that were indexed, it
  takes that document out. The triggers always pass the \<open>old\<close> values of the row, so this is
  exact as long as the index is in sync. On a stale index FTS5 works posting by posting
  on the values it is given; the model then leaves the index as it is.
\<close>

definition fts_insert :: "rowid \<Rightarrow> 'd \<Rightarrow> (rowid \<times> 'd) list \<Rightarrow> (rowid \<times> 'd) list" where
  "fts_insert rid doc idx = idx @ [(rid, doc)]"

definition fts_delete :: "rowid \<Rightarrow> 'd \<Rightarrow> (rowid \<times> 'd) list \<Rightarrow> (rowid \<times> 'd) list" where
  "fts_delete rid doc idx = remove1 (rid, doc) idx"

definition knowledge_doc :: "knowledge_entry \<Rightarrow> knowledge_doc" where
  "knowledge_doc r = (k_title r, k_content r, k_source_quote r)"

definition video_doc :: "video \<Rightarrow> video_doc" where
  "video_doc r = (v_title r, v_description r)"

definition knowledge_ai :: "knowledge_entry \<Rightarrow> db \<Rightarrow> db" where
  "knowledge_ai new d = d\<lparr>knowledge_fts := fts_insert (k_id new) (knowledge_doc new) (knowledge_fts d)\<rparr>"

definition knowledge_ad :: "knowledge_entry \<Rightarrow> db \<Rightarrow> db" where
  "knowledge_ad old d = d\<lparr>knowledge_fts := fts_delete (k_id old) (knowledge_doc old) (knowledge_fts d)\<rparr>"

definition knowledge_au :: "knowledge_entry \<Rightarrow> knowledge_entry \<Rightarrow> db \<Rightarrow> db" where
  "knowledge_au old new d =
     d\<lparr>knowledge_fts := fts_insert (k_id new) (knowledge_doc new)
                           (fts_delete (k_id old) (knowledge_doc old) (knowledge_fts d))\<rparr>"

definition transcript_ai :: "transcript \<Rightarrow> db \<Rightarrow> db" where
  "transcript_ai new d = d\<lparr>transcript_fts := fts_insert (t_id new) (t_full_text new) (transcript_fts d)\<rparr>"

definition transcript_ad :: "transcript \<Rightarrow> db \<Rightarrow> db" where
  "transcript_ad old d = d\<lparr>transcript_fts := fts_delete (t_id old) (t_full_text old) (transcript_fts d)\<rparr>"

definition video_ai :: "video \<Rightarrow> db \<Rightarrow> db" where
  "video_ai new d = d\<lparr>video_fts := fts_insert (v_id new) (video_doc new) (video_fts d)\<rparr>"

definition video_ad :: "video \<Rightarrow> db \<Rightarrow> db" where
  "video_ad old d = d\<lparr>video_fts := fts_delete (v_id old) (video_doc old) (video_fts d)\<rparr>"

definition video_au :: "video \<Rightarrow> video \<Rightarrow> db \<Rightarrow> db" where
  "video_au old new d =
     d\<lparr>video_fts := fts_insert (v_id new) (video_doc new)
                       (fts_delete (v_id old) (video_doc old) (video_fts d))\<rparr>"

subsection \<open>CHECK constraints\<close>

definition ingestion_statuses :: "sql_text list" where
  "ingestion_statuses = [''pending'', ''transcript_fetched'', ''analyzed'', ''failed'', ''skipped'']"

definition entry_types :: "sql_text list" where
  "entry_types = [''insight'', ''tip'', ''concept'', ''technique'', ''warning'', ''resource'', ''quote'']"

definition log_steps :: "sql_text list" where
  "log_steps = [''fetch_transcript'', ''analyze_chunk'', ''store_knowledge'']"

definition log_statuses :: "sql_text list" where
  "log_statuses = [''started'', ''completed'', ''failed'']"

definition bias_types :: "sql_text list" where
  "bias_types = [''brand_promotion'', ''affiliate'', ''sponsored'', ''product_placement'',
     ''unsubstantiated_claim'']"

definition bias_severities :: "sql_text list" where
  "bias_severities = [''low'', ''medium'', ''high'']"

definition action_types :: "sql_text list" where
  "action_types = [''re_ingest'', ''delete_entry'', ''merge_videos'', ''reclassify'',
     ''merge_entries'', ''normalize_tags'', ''fill_metadata'', ''rescore'']"

definition queue_severities :: "sql_text list" where
  "queue_severities = [''auto'', ''suggestion'', ''destructive'']"

definition queue_statuses :: "sql_text list" where
  "queue_statuses = [''pending'', ''approved'', ''rejected'', ''executed'', ''failed'']"

definition video_check :: "video \<Rightarrow> bool" where
  "video_check r = (v_ingestion_status r \<in> set ingestion_statuses)"

definition knowledge_check :: "knowledge_entry \<Rightarrow> bool" where
  "knowledge_check r =
     (k_entry_type r \<in> set entry_types \<and> (k_confidence r \<ge> 0.0 \<and> k_confidence r \<le> 1.0))"

definition processing_log_check :: "processing_log_entry \<Rightarrow> bool" where
  "processing_log_check r = (pl_step r \<in> set log_steps \<and> pl_status r \<in> set log_statuses)"

definition bias_flag_check :: "bias_flag \<Rightarrow> bool" where
  "bias_flag_check r =
     (b_bias_type r \<in> set bias_types \<and> b_bias_severity r \<in> set bias_severities)"

definition queue_check :: "queue_item \<Rightarrow> bool" where
  "queue_check r =
     (q_action_type r \<in> set action_types \<and> q_severity r \<in> set queue_severities
      \<and> q_status r \<in> set queue_statuses)"

subsection \<open>INSERT: defaults and NOT NULL\<close>

text \<open>
  The row an \<open>INSERT\<close> builds: defaults filled in (\<open>now\<close> is \<open>datetime('now')\<close>), \<open>None\<close>
  when a \<open>NOT NULL\<close> column is \<open>NULL\<close>. The rowid \<open>i\<close> is the one the statement gives or
  the one \<open>AUTOINCREMENT\<close> picks.
\<close>

definition channel_row :: "sql_text \<Rightarrow> rowid \<Rightarrow> channel_values \<Rightarrow> channel option" where
  "channel_row now i v = do {
     cid \<leftarrow> chv_channel_id v;
     name \<leftarrow> chv_channel_name v;
     url \<leftarrow> chv_channel_url v;
     ca \<leftarrow> resolve (chv_created_at v) now;
     ua \<leftarrow> resolve (chv_updated_at v) now;
     Some \<lparr>ch_id = i, ch_channel_id = cid, ch_channel_name = name, ch_channel_url = url,
       ch_description = chv_description v, ch_subscriber_count = chv_subscriber_count v,
       ch_video_count = chv_video_count v, ch_thumbnail_url = chv_thumbnail_url v,
       ch_created_at = ca, ch_updated_at = ua\<rparr> }"

definition video_row :: "sql_text \<Rightarrow> rowid \<Rightarrow> video_values \<Rightarrow> video option" where
  "video_row now i v = do {
     vid \<leftarrow> vv_video_id v;
     ch \<leftarrow> vv_channel_id v;
     ti \<leftarrow> vv_title v;
     st \<leftarrow> resolve (vv_ingestion_status v) ''pending'';
     ca \<leftarrow> resolve (vv_created_at v) now;
     ua \<leftarrow> resolve (vv_updated_at v) now;
     Some \<lparr>v_id = i, v_video_id = vid, v_channel_id = ch, v_title = ti,
       v_description = vv_description v, v_published_at = vv_published_at v,
       v_duration_seconds = vv_duration_seconds v, v_view_count = vv_view_count v,
       v_like_count = vv_like_count v, v_thumbnail_url = vv_thumbnail_url v,
       v_ingestion_status = st, v_failure_reason = vv_failure_reason v,
       v_created_at = ca, v_updated_at = ua\<rparr> }"

definition transcript_row :: "sql_text \<Rightarrow> rowid \<Rightarrow> transcript_values \<Rightarrow> transcript option" where
  "transcript_row now i v = do {
     vid \<leftarrow> tv_video_id v;
     lc \<leftarrow> resolve (tv_language_code v) ''en'';
     gen \<leftarrow> resolve (tv_is_generated v) False;
     ft \<leftarrow> tv_full_text v;
     sd \<leftarrow> tv_snippet_data v;
     wc \<leftarrow> tv_word_count v;
     ca \<leftarrow> resolve (tv_created_at v) now;
     Some \<lparr>t_id = i, t_video_id = vid, t_language_code = lc, t_is_generated = gen,
       t_full_text = ft, t_snippet_data = sd, t_word_count = wc, t_created_at = ca\<rparr> }"

definition knowledge_row :: "sql_text \<Rightarrow> rowid \<Rightarrow> knowledge_values \<Rightarrow> knowledge_entry option" where
  "knowledge_row now i v = do {
     vid \<leftarrow> kv_video_id v;
     et \<leftarrow> kv_entry_type v;
     ti \<leftarrow> kv_title v;
     co \<leftarrow> kv_content v;
     cf \<leftarrow> resolve (kv_confidence v) 0.8;
     ca \<leftarrow> resolve (kv_created_at v) now;
     Some \<lparr>k_id = i, k_video_id = vid, k_entry_type = et, k_title = ti, k_content = co,
       k_source_start_time = kv_source_start_time v, k_source_end_time = kv_source_end_time v,
       k_source_quote = kv_source_quote v, k_confidence = cf,
       k_chunk_index = kv_chunk_index v, k_created_at = ca\<rparr> }"

definition processing_log_row ::
  "sql_text \<Rightarrow> rowid \<Rightarrow> processing_log_values \<Rightarrow> processing_log_entry option" where
  "processing_log_row now i v = do {
     vid \<leftarrow> plv_video_id v;
     st \<leftarrow> plv_step v;
     status \<leftarrow> plv_status v;
     sa \<leftarrow> resolve (plv_started_at v) now;
     Some \<lparr>pl_id = i, pl_video_id = vid, pl_step = st, pl_chunk_index = plv_chunk_index v,
       pl_status = status, pl_tokens_used = plv_tokens_used v,
       pl_error_message = plv_error_message v, pl_started_at = sa,
       pl_completed_at = plv_completed_at v\<rparr> }"

definition bias_flag_row :: "sql_text \<Rightarrow> rowid \<Rightarrow> bias_flag_values \<Rightarrow> bias_flag option" where
  "bias_flag_row now i v = do {
     kid \<leftarrow> bv_knowledge_id v;
     bt \<leftarrow> bv_bias_type v;
     sev \<leftarrow> resolve (bv_bias_severity v) ''medium'';
     notes \<leftarrow> bv_bias_notes v;
     det \<leftarrow> resolve (bv_detected_by v) ''bias_agent'';
     ca \<leftarrow> resolve (bv_created_at v) now;
     Some \<lparr>b_id = i, b_knowledge_id = kid, b_bias_type = bt, b_bias_severity = sev,
       b_brand_names = bv_brand_names v, b_bias_notes = notes, b_detected_by = det,
       b_created_at = ca\<rparr> }"

definition queue_row :: "sql_text \<Rightarrow> rowid \<Rightarrow> queue_values \<Rightarrow> queue_item option" where
  "queue_row now i v = do {
     act \<leftarrow> qv_action_type v;
     sev \<leftarrow> resolve (qv_severity v) ''suggestion'';
     st \<leftarrow> resolve (qv_status v) ''pending'';
     tt \<leftarrow> qv_target_type v;
     de \<leftarrow> qv_description v;
     ca \<leftarrow> resolve (qv_created_at v) now;
     Some \<lparr>q_id = i, q_action_type = act, q_severity = sev, q_status = st, q_target_type = tt,
       q_target_id = qv_target_id v, q_description = de, q_details = qv_details v,
       q_created_at = ca, q_resolved_at = qv_resolved_at v, q_resolved_by = qv_resolved_by v\<rparr> }"

subsection \<open>INSERT statements\<close>

text \<open>
  Constraints are tested in SQLite's order: \<open>NOT NULL\<close>, \<open>CHECK\<close>, the primary key, the
  \<open>UNIQUE\<close> columns, and the foreign keys (\<open>PRAGMA foreign_keys = ON\<close>) when the statement
  ends. The \<open>AFTER INSERT\<close> trigger runs once the row is in.
\<close>

definition insert_channel :: "sql_text \<Rightarrow> db \<Rightarrow> rowid \<Rightarrow> channel_values \<Rightarrow> sql_error + db" where
  "insert_channel now d i v =
     (case channel_row now i v of
        None \<Rightarrow> Inl NotNullViolation
      | Some r \<Rightarrow>
          if i \<in> set (map ch_id (channels d)) then Inl PrimaryKeyViolation
          else if ch_channel_id r \<in> set (map ch_channel_id (channels d)) then Inl UniqueViolation
          else Inr (d\<lparr>channels := channels d @ [r]\<rparr>))"

definition insert_video :: "sql_text \<Rightarrow> db \<Rightarrow> rowid \<Rightarrow> video_values \<Rightarrow> sql_error + db" where
  "insert_video now d i v =
     (case video_row now i v of
        None \<Rightarrow> Inl NotNullViolation
      | Some r \<Rightarrow>
          if \<not> video_check r then Inl CheckViolation
          else if i \<in> set (map v_id (videos d)) then Inl PrimaryKeyViolation
          else if v_video_id r \<in> set (map v_video_id (videos d)) then Inl UniqueViolation
          else if v_channel_id r \<notin> set (map ch_id (channels d)) then Inl ForeignKeyViolation
          else Inr (video_ai r (d\<lparr>videos := videos d @ [r]\<rparr>)))"

definition insert_transcript :: "sql_text \<Rightarrow> db \<Rightarrow> rowid \<Rightarrow> transcript_values \<Rightarrow> sql_error + db" where
  "insert_transcript now d i v =
     (case transcript_row now i v of
        None \<Rightarrow> Inl NotNullViolation
      | Some r \<Rightarrow>
          if i \<in> set (map t_id (transcripts d)) then Inl PrimaryKeyViolation
          else if t_video_id r \<in> set (map t_video_id (transcripts d)) then Inl UniqueViolation
          else if t_video_id r \<notin> set (map v_id (videos d)) then Inl ForeignKeyViolation
          else Inr (transcript_ai r (d\<lparr>transcripts := transcripts d @ [r]\<rparr>)))"

definition insert_knowledge :: "sql_text \<Rightarrow> db \<Rightarrow> rowid \<Rightarrow> knowledge_values \<Rightarrow> sql_error + db" where
  "insert_knowledge now d i v =
     (case knowledge_row now i v of
        None \<Rightarrow> Inl NotNullViolation
      | Some r \<Rightarrow>
          if \<not> knowledge_check r then Inl CheckViolation
          else if i \<in> set (map k_id (knowledge_entries d)) then Inl PrimaryKeyViolation
          else if k_video_id r \<notin> set (map v_id (videos d)) then Inl ForeignKeyViolation
          else Inr (knowledge_ai r (d\<lparr>knowledge_entries := knowledge_entries d @ [r]\<rparr>)))"

definition insert_processing_log ::
  "sql_text \<Rightarrow> db \<Rightarrow> rowid \<Rightarrow> processing_log_values \<Rightarrow> sql_error + db" where
  "insert_processing_log now d i v =
     (case processing_log_row now i v of
        None \<Rightarrow> Inl NotNullViolation
      | Some r \<Rightarrow>
          if \<not> processing_log_check r then Inl CheckViolation
          else if i \<in> set (map pl_id (processing_log d)) then Inl PrimaryKeyViolation
          else if pl_video_id r \<notin> set (map v_id (videos d)) then Inl ForeignKeyViolation
          else Inr (d\<lparr>processing_log := processing_log d @ [r]\<rparr>))"

definition bias_key :: "bias_flag \<Rightarrow> rowid \<times> sql_text" where
  "bias_key b = (b_knowledge_id b, b_bias_type b)"

definition insert_bias_flag :: "sql_text \<Rightarrow> db \<Rightarrow> rowid \<Rightarrow> bias_flag_values \<Rightarrow> sql_error + db" where
  "insert_bias_flag now d i v =
     (case bias_flag_row now i v of
        None \<Rightarrow> Inl NotNullViolation
      | Some r \<Rightarrow>
          if \<not> bias_flag_check r then Inl CheckViolation
          else if i \<in> set (map b_id (bias_flags d)) then Inl PrimaryKeyViolation
          else if bias_key r \<in> set (map bias_key (bias_flags d)) then Inl UniqueViolation
          else if b_knowledge_id r \<notin> set (map k_id (knowledge_entries d)) then Inl ForeignKeyViolation
          else Inr (d\<lparr>bias_flags := bias_flags d @ [r]\<rparr>))"

definition insert_queue_item :: "sql_text \<Rightarrow> db \<Rightarrow> rowid \<Rightarrow> queue_values \<Rightarrow> sql_error + db" where
  "insert_queue_item now d i v =
     (case queue_row now i v of
        None \<Rightarrow> Inl NotNullViolation
      | Some r \<Rightarrow>
          if \<not> queue_check r then Inl CheckViolation
          else if i \<in> set (map q_id (optimization_queue d)) then Inl PrimaryKeyViolation
          else Inr (d\<lparr>optimization_queue := optimization_queue d @ [r]\<rparr>))"

subsection \<open>UPDATE statements\<close>

text \<open>
  \<^verbatim>\<open>UPDATE t SET ... WHERE id = i\<close> with the columns other than \<open>id\<close> set to those of the
  given row; a statement that matches no row changes nothing. \<open>videos\<close> and
  \<open>knowledge_entries\<close> have an \<open>AFTER UPDATE\<close> trigger; \<open>transcripts\<close> has none.
\<close>

definition replace_row :: "('r \<Rightarrow> rowid) \<Rightarrow> rowid \<Rightarrow> 'r \<Rightarrow> 'r list \<Rightarrow> 'r list" where
  "replace_row gid i r rows = map (\<lambda>x. if gid x = i then r else x) rows"

definition others :: "('r \<Rightarrow> rowid) \<Rightarrow> rowid \<Rightarrow> 'r list \<Rightarrow> 'r list" where
  "others gid i rows = filter (\<lambda>x. gid x \<noteq> i) rows"

definition update_channel :: "db \<Rightarrow> rowid \<Rightarrow> channel \<Rightarrow> sql_error + db" where
  "update_channel d i new =
     (case find (\<lambda>x. ch_id x = i) (channels d) of
        None \<Rightarrow> Inr d
      | Some old \<Rightarrow>
          let r = new\<lparr>ch_id := i\<rparr> in
          if ch_channel_id r \<in> set (map ch_channel_id (others ch_id i (channels d)))
          then Inl UniqueViolation
          else Inr (d\<lparr>channels := replace_row ch_id i r (channels d)\<rparr>))"

definition update_video :: "db \<Rightarrow> rowid \<Rightarrow> video \<Rightarrow> sql_error + db" where
  "update_video d i new =
     (case find (\<lambda>x. v_id x = i) (videos d) of
        None \<Rightarrow> Inr d
      | Some old \<Rightarrow>
          let r = new\<lparr>v_id := i\<rparr> in
          if \<not> video_check r then Inl CheckViolation
          else if v_video_id r \<in> set (map v_video_id (others v_id i (videos d)))
          then Inl UniqueViolation
          else if v_channel_id r \<notin> set (map ch_id (channels d)) then Inl ForeignKeyViolation
          else Inr (video_au old r (d\<lparr>videos := replace_row v_id i r (videos d)\<rparr>)))"

definition update_transcript :: "db \<Rightarrow> rowid \<Rightarrow> transcript \<Rightarrow> sql_error + db" where
  "update_transcript d i new =
     (case find (\<lambda>x. t_id x = i) (transcripts d) of
        None \<Rightarrow> Inr d
      | Some old \<Rightarrow>
          let r = new\<lparr>t_id := i\<rparr> in
          if t_video_id r \<in> set (map t_video_id (others t_id i (transcripts d)))
          then Inl UniqueViolation
          else if t_video_id r \<notin> set (map v_id (videos d)) then Inl ForeignKeyViolation
          else Inr (d\<lparr>transcripts := replace_row t_id i r (transcripts d)\<rparr>))"

definition update_knowledge :: "db \<Rightarrow> rowid \<Rightarrow> knowledge_entry \<Rightarrow> sql_error + db" where
  "update_knowledge d i new =
     (case find (\<lambda>x. k_id x = i) (knowledge_entries d) of
        None \<Rightarrow> Inr d
      | Some old \<Rightarrow>
          let r = new\<lparr>k_id := i\<rparr> in
          if \<not> knowledge_check r then Inl CheckViolation
          else if k_video_id r \<notin> set (map v_id (videos d)) then Inl ForeignKeyViolation
          else Inr (knowledge_au old r
                 (d\<lparr>knowledge_entries := replace_row k_id i r (knowledge_entries d)\<rparr>)))"

definition update_processing_log :: "db \<Rightarrow> rowid \<Rightarrow> processing_log_entry \<Rightarrow> sql_error + db" where
  "update_processing_log d i new =
     (case find (\<lambda>x. pl_id x = i) (processing_log d) of
        None \<Rightarrow> Inr d
      | Some old \<Rightarrow>
          let r = new\<lparr>pl_id := i\<rparr> in
          if \<not> processing_log_check r then Inl CheckViolation
          else if pl_video_id r \<notin> set (map v_id (videos d)) then Inl ForeignKeyViolation
          else Inr (d\<lparr>processing_log := replace_row pl_id i r (processing_log d)\<rparr>))"

definition update_bias_flag :: "db \<Rightarrow> rowid \<Rightarrow> bias_flag \<Rightarrow> sql_error + db" where
  "update_bias_flag d i new =
     (case find (\<lambda>x. b_id x = i) (bias_flags d) of
        None \<Rightarrow> Inr d
      | Some old \<Rightarrow>
          let r = new\<lparr>b_id := i\<rparr> in
          if \<not> bias_flag_check r then Inl CheckViolation
          else if bias_key r \<in> set (map bias_key (others b_id i (bias_flags d)))
          then Inl UniqueViolation
          else if b_knowledge_id r \<notin> set (map k_id (knowledge_entries d)) then Inl ForeignKeyViolation
          else Inr (d\<lparr>bias_flags := replace_row b_id i r (bias_flags d)\<rparr>))"

definition update_queue_item :: "db \<Rightarrow> rowid \<Rightarrow> queue_item \<Rightarrow> sql_error + db" where
  "update_queue_item d i new =
     (case find (\<lambda>x. q_id x = i) (optimization_queue d) of
        None \<Rightarrow> Inr d
      | Some old \<Rightarrow>
          let r = new\<lparr>q_id := i\<rparr> in
          if \<not> queue_check r then Inl CheckViolation
          else Inr (d\<lparr>optimization_queue := replace_row q_id i r (optimization_queue d)\<rparr>))"

subsection \<open>DELETE statements and the cascades\<close>

text \<open>
  Deleting rows deletes the rows that reference them \<open>ON DELETE CASCADE\<close>, and the
  \<open>AFTER DELETE\<close> trigger of a table runs for each row that leaves it, cascaded or not.
  \<open>bias_flags\<close> and \<open>processing_log\<close> have no trigger; \<open>optimization_queue\<close> names its
  target by \<open>target_type\<close> and \<open>target_id\<close> without a foreign key, so no cascade reaches it.
\<close>

definition delete_bias_flags_where :: "(bias_flag \<Rightarrow> bool) \<Rightarrow> db \<Rightarrow> db" where
  "delete_bias_flags_where P d = d\<lparr>bias_flags := filter (\<lambda>b. \<not> P b) (bias_flags d)\<rparr>"

definition delete_processing_log_where :: "(processing_log_entry \<Rightarrow> bool) \<Rightarrow> db \<Rightarrow> db" where
  "delete_processing_log_where P d = d\<lparr>processing_log := filter (\<lambda>l. \<not> P l) (processing_log d)\<rparr>"

definition delete_queue_items_where :: "(queue_item \<Rightarrow> bool) \<Rightarrow> db \<Rightarrow> db" where
  "delete_queue_items_where P d =
     d\<lparr>optimization_queue := filter (\<lambda>q. \<not> P q) (optimization_queue d)\<rparr>"

definition delete_transcripts_where :: "(transcript \<Rightarrow> bool) \<Rightarrow> db \<Rightarrow> db" where
  "delete_transcripts_where P d =
     (let olds = filter P (transcripts d);
          d1 = d\<lparr>transcripts := filter (\<lambda>t. \<not> P t) (transcripts d)\<rparr>
      in foldl (\<lambda>d' old. transcript_ad old d') d1 olds)"

definition delete_knowledge_where :: "(knowledge_entry \<Rightarrow> bool) \<Rightarrow> db \<Rightarrow> db" where
  "delete_knowledge_where P d =
     (let olds = filter P (knowledge_entries d);
          d1 = d\<lparr>knowledge_entries := filter (\<lambda>k. \<not> P k) (knowledge_entries d)\<rparr>;
          d2 = delete_bias_flags_where (\<lambda>b. b_knowledge_id b \<in> set (map k_id olds)) d1
      in foldl (\<lambda>d' old. knowledge_ad old d') d2 olds)"

definition delete_videos_where :: "(video \<Rightarrow> bool) \<Rightarrow> db \<Rightarrow> db" where
  "delete_videos_where P d =
     (let olds = filter P (videos d);
          ids = set (map v_id olds);
          d1 = d\<lparr>videos := filter (\<lambda>v. \<not> P v) (videos d)\<rparr>;
          d2 = delete_transcripts_where (\<lambda>t. t_video_id t \<in> ids) d1;
          d3 = delete_knowledge_where (\<lambda>k. k_video_id k \<in> ids) d2;
          d4 = delete_processing_log_where (\<lambda>l. pl_video_id l \<in> ids) d3
      in foldl (\<lambda>d' old. video_ad old d') d4 olds)"

definition delete_channels_where :: "(channel \<Rightarrow> bool) \<Rightarrow> db \<Rightarrow> db" where
  "delete_channels_where P d =
     (let olds = filter P (channels d);
          ids = set (map ch_id olds);
          d1 = d\<lparr>channels := filter (\<lambda>c. \<not> P c) (channels d)\<rparr>
      in delete_videos_where (\<lambda>v. v_channel_id v \<in> ids) d1)"

definition delete_channel :: "db \<Rightarrow> rowid \<Rightarrow> db" where
  "delete_channel d i = delete_channels_where (\<lambda>r. ch_id r = i) d"

definition delete_video :: "db \<Rightarrow> rowid \<Rightarrow> db" where
  "delete_video d i = delete_videos_where (\<lambda>r. v_id r = i) d"

definition delete_transcript :: "db \<Rightarrow> rowid \<Rightarrow> db" where
  "delete_transcript d i = delete_transcripts_where (\<lambda>r. t_id r = i) d"

definition delete_knowledge :: "db \<Rightarrow> rowid \<Rightarrow> db" where
  "delete_knowledge d i = delete_knowledge_where (\<lambda>r. k_id r = i) d"

definition delete_processing_log :: "db \<Rightarrow> rowid \<Rightarrow> db" where
  "delete_processing_log d i = delete_processing_log_where (\<lambda>r. pl_id r = i) d"

definition delete_bias_flag :: "db \<Rightarrow> rowid \<Rightarrow> db" where
  "delete_bias_flag d i = delete_bias_flags_where (\<lambda>r. b_id r = i) d"

definition delete_queue_item :: "db \<Rightarrow> rowid \<Rightarrow> db" where
  "delete_queue_item d i = delete_queue_items_where (\<lambda>r. q_id r = i) d"

subsection \<open>Statements and their execution\<close>

datatype stmt =
    InsertChannel sql_text rowid channel_values
  | UpdateChannel rowid channel
  | DeleteChannel rowid
  | InsertVideo sql_text rowid video_values
  | UpdateVideo rowid video
  | DeleteVideo rowid
  | InsertTranscript sql_text rowid transcript_values
  | UpdateTranscript rowid transcript
  | DeleteTranscript rowid
  | InsertKnowledge sql_text rowid knowledge_values
  | UpdateKnowledge rowid knowledge_entry
  | DeleteKnowledge rowid
  | InsertProcessingLog sql_text rowid processing_log_values
  | UpdateProcessingLog rowid processing_log_entry
  | DeleteProcessingLog rowid
  | InsertBiasFlag sql_text rowid bias_flag_values
  | UpdateBiasFlag rowid bias_flag
  | DeleteBiasFlag rowid
  | InsertQueueItem sql_text rowid queue_values
  | UpdateQueueItem rowid queue_item
  | DeleteQueueItem rowid

fun exec_stmt :: "stmt \<Rightarrow> db \<Rightarrow> sql_error + db" where
  "exec_stmt (InsertChannel now i v) d = insert_channel now d i v"
| "exec_stmt (UpdateChannel i r) d = update_channel d i r"
| "exec_stmt (DeleteChannel i) d = Inr (delete_channel d i)"
| "exec_stmt (InsertVideo now i v) d = insert_video now d i v"
| "exec_stmt (UpdateVideo i r) d = update_video d i r"
| "exec_stmt (DeleteVideo i) d = Inr (delete_video d i)"
| "exec_stmt (InsertTranscript now i v) d = insert_transcript now d i v"
| "exec_stmt (UpdateTranscript i r) d = update_transcript d i r"
| "exec_stmt (DeleteTranscript i) d = Inr (delete_transcript d i)"
| "exec_stmt (InsertKnowledge now i v) d = insert_knowledge now d i v"
| "exec_stmt (UpdateKnowledge i r) d = update_knowledge d i r"
| "exec_stmt (DeleteKnowledge i) d = Inr (delete_knowledge d i)"
| "exec_stmt (InsertProcessingLog now i v) d = insert_processing_log now d i v"
| "exec_stmt (UpdateProcessingLog i r) d = update_processing_log d i r"
| "exec_stmt (DeleteProcessingLog i) d = Inr (delete_processing_log d i)"
| "exec_stmt (InsertBiasFlag now i v) d = insert_bias_flag now d i v"
| "exec_stmt (UpdateBiasFlag i r) d = update_bias_flag d i r"
| "exec_stmt (DeleteBiasFlag i) d = Inr (delete_bias_flag d i)"
| "exec_stmt (InsertQueueItem now i v) d = insert_queue_item now d i v"
| "exec_stmt (UpdateQueueItem i r) d = update_queue_item d i r"
| "exec_stmt (DeleteQueueItem i) d = Inr (delete_queue_item d i)"

text \<open>
  A statement that violates a constraint is aborted: the caller gets the error and the
  store is as it was before the statement. The stores that can arise are those that
  statements build from the empty one.
\<close>

definition execute :: "db \<Rightarrow> stmt \<Rightarrow> sql_error option \<times> db" where
  "execute d s = (case exec_stmt s d of Inl e \<Rightarrow> (Some e, d) | Inr d' \<Rightarrow> (None, d'))"

definition run :: "stmt list \<Rightarrow> db" where
  "run ss = foldl (\<lambda>d s. snd (execute d s)) empty_db ss"

inductive reachable :: "db \<Rightarrow> bool" where
  reachable_empty: "reachable empty_db"
| reachable_step: "reachable d \<Longrightarrow> reachable (snd (execute d s))"

subsection \<open>Index consistency\<close>

text \<open>An index is in sync with its table when it holds, for each row of the table, one
  document under the row's id with the row's indexed columns, and nothing else.\<close>

definition knowledge_synced :: "db \<Rightarrow> bool" where
  "knowledge_synced d =
     (mset (knowledge_fts d) = mset (map (\<lambda>r. (k_id r, knowledge_doc r)) (knowledge_entries d)))"

definition transcript_synced :: "db \<Rightarrow> bool" where
  "transcript_synced d =
     (mset (transcript_fts d) = mset (map (\<lambda>r. (t_id r, t_full_text r)) (transcripts d)))"

definition video_synced :: "db \<Rightarrow> bool" where
  "video_synced d = (mset (video_fts d) = mset (map (\<lambda>r. (v_id r, video_doc r)) (videos d)))"

definition fts_synced :: "db \<Rightarrow> bool" where
  "fts_synced d = (knowledge_synced d \<and> transcript_synced d \<and> video_synced d)"

subsection \<open>Invariants of the store\<close>

definition keys_distinct :: "db \<Rightarrow> bool" where
  "keys_distinct d =
     (distinct (map v_id (videos d)) \<and> distinct (map k_id (knowledge_entries d))
      \<and> distinct (map b_id (bias_flags d)))"

definition bias_unique :: "db \<Rightarrow> bool" where
  "bias_unique d = distinct (map bias_key (bias_flags d))"

definition knowledge_valid :: "db \<Rightarrow> bool" where
  "knowledge_valid d = (\<forall>r \<in> set (knowledge_entries d). knowledge_check r)"

definition queue_valid :: "db \<Rightarrow> bool" where
  "queue_valid d = (\<forall>r \<in> set (optimization_queue d). queue_check r)"

definition bias_valid :: "db \<Rightarrow> bool" where
  "bias_valid d =
     (\<forall>b \<in> set (bias_flags d).
        bias_flag_check b \<and> b_knowledge_id b \<in> set (map k_id (knowledge_entries d)))"

text \<open>The invariants that every statement keeps.\<close>

definition db_inv :: "db \<Rightarrow> bool" where
  "db_inv d = (keys_distinct d \<and> bias_unique d \<and> bias_valid d \<and> knowledge_valid d \<and> queue_valid d
     \<and> knowledge_synced d \<and> video_synced d)"

section \<open>Pipeline operations described by the specification\<close>

subsection \<open>Search\<close>

text \<open>
  Modelled from the spec: the search query of the Search Index Synchronizer (section 4.2),
  whose code is not among the sources. Given a free-text query it returns the ids of the
  matching index rows, restricted to rows that still exist in the source table. The index
  engine's matching of a query against a document is the parameter \<open>matches\<close>; the
  ranking of the results is not modelled.
\<close>

definition fts_match :: "(sql_text \<Rightarrow> 'd \<Rightarrow> bool) \<Rightarrow> (rowid \<times> 'd) list \<Rightarrow> sql_text \<Rightarrow> rowid list" where
  "fts_match matches idx q = map fst (filter (\<lambda>e. matches q (snd e)) idx)"

definition search_knowledge :: "(sql_text \<Rightarrow> knowledge_doc \<Rightarrow> bool) \<Rightarrow> db \<Rightarrow> sql_text \<Rightarrow> rowid list" where
  "search_knowledge matches d q =
     filter (\<lambda>i. i \<in> set (map k_id (knowledge_entries d))) (fts_match matches (knowledge_fts d) q)"

definition search_transcripts :: "(sql_text \<Rightarrow> transcript_doc \<Rightarrow> bool) \<Rightarrow> db \<Rightarrow> sql_text \<Rightarrow> rowid list" where
  "search_transcripts matches d q =
     filter (\<lambda>i. i \<in> set (map t_id (transcripts d))) (fts_match matches (transcript_fts d) q)"

definition search_videos :: "(sql_text \<Rightarrow> video_doc \<Rightarrow> bool) \<Rightarrow> db \<Rightarrow> sql_text \<Rightarrow> rowid list" where
  "search_videos matches d q =
     filter (\<lambda>i. i \<in> set (map v_id (videos d))) (fts_match matches (video_fts d) q)"

subsection \<open>Bias flag upsert\<close>

text \<open>
  Modelled from the spec: the write that the Bias Review Layer's \<open>scan\<close> makes for each
  result of the bias detection (section 4.3), whose code is not among the sources. A
  result is upserted under the key (entry id, bias type): when the entry has a flag of that
  type the existing row's severity and notes are updated, otherwise a row is inserted
  (under the fresh rowid \<open>i\<close>).
\<close>

record bias_result =
  br_bias_type :: sql_text
  br_severity :: sql_text
  br_brand_names :: "sql_text option"
  br_notes :: sql_text

definition upsert_bias_flag :: "sql_text \<Rightarrow> db \<Rightarrow> rowid \<Rightarrow> rowid \<Rightarrow> bias_result \<Rightarrow> sql_error + db" where
  "upsert_bias_flag now d i entry res =
     (case find (\<lambda>b. bias_key b = (entry, br_bias_type res)) (bias_flags d) of
        Some old \<Rightarrow>
          update_bias_flag d (b_id old)
            (old\<lparr>b_bias_severity := br_severity res, b_bias_notes := br_notes res\<rparr>)
      | None \<Rightarrow>
          insert_bias_flag now d i
            \<lparr>bv_knowledge_id = Some entry, bv_bias_type = Some (br_bias_type res),
             bv_bias_severity = Given (br_severity res), bv_brand_names = br_brand_names res,
             bv_bias_notes = Some (br_notes res), bv_detected_by = Omitted,
             bv_created_at = Omitted\<rparr>)"

subsection \<open>Enqueueing an optimization action\<close>

text \<open>
  Modelled from the spec: \<open>enqueue(actionType, severity, target, description, details)\<close>
  of the Optimization Queue (section 4.4), whose code is not among the sources. It creates
  a pending item, except when the severity is \<open>auto\<close>: then the action is executed at once
  and the item is recorded as already \<open>executed\<close>, or \<open>failed\<close> if the execution raised an
  error. The execution of the action is the parameter \<open>perform\<close>; it returns the mutated
  store or the error message, and a failed execution leaves the store as it was.
\<close>

definition enqueue ::
  "(db \<Rightarrow> sql_text + db) \<Rightarrow> sql_text \<Rightarrow> db \<Rightarrow> rowid \<Rightarrow> sql_text \<Rightarrow> sql_text \<Rightarrow> sql_text \<Rightarrow> int option
     \<Rightarrow> sql_text \<Rightarrow> sql_text option \<Rightarrow> sql_error + db" where
  "enqueue perform now d i actionType severity target_type target_id description details =
     (let item = \<lparr>qv_action_type = Some actionType, qv_severity = Given severity,
                   qv_status = Omitted, qv_target_type = Some target_type,
                   qv_target_id = target_id, qv_description = Some description,
                   qv_details = details, qv_created_at = Omitted, qv_resolved_at = None,
                   qv_resolved_by = None\<rparr>
      in if severity = ''auto''
         then (case perform d of
                 Inr d' \<Rightarrow> insert_queue_item now d' i (item\<lparr>qv_status := Given ''executed''\<rparr>)
               | Inl err \<Rightarrow> insert_queue_item now d i (item\<lparr>qv_status := Given ''failed''\<rparr>))
         else insert_queue_item now d i item)"

subsection \<open>Failures of a write\<close>

text \<open>
  Modelled from the spec: the error taxonomy of section 7 and the bounded retry of a
  pipeline step (section 4.1), whose code is not among the sources. A transient external
  failure is retried until the retry budget is used up; every other failure, a data
  integrity violation among them, is surfaced to the caller at once. \<open>with_retry\<close>
  returns the failure surfaced (if any), the store, and the number of attempts made.
\<close>

datatype failure =
    TransientExternalFailure
  | PermanentExternalFailure
  | DataIntegrityViolation sql_error
  | ApprovalStateError

definition retried :: "failure \<Rightarrow> bool" where
  "retried f = (f = TransientExternalFailure)"

fun with_retry :: "nat \<Rightarrow> (db \<Rightarrow> failure + db) \<Rightarrow> db \<Rightarrow> failure option \<times> db \<times> nat" where
  "with_retry budget step d =
     (case step d of
        Inr d' \<Rightarrow> (None, d', 1)
      | Inl f \<Rightarrow>
          (case budget of
             Suc n \<Rightarrow> if retried f
                      then (case with_retry n step d of (r, d', k) \<Rightarrow> (r, d', Suc k))
                      else (Some f, d, 1)
           | 0 \<Rightarrow> (Some f, d, 1)))"

declare with_retry.simps [simp del]

definition attempt_write :: "stmt \<Rightarrow> db \<Rightarrow> failure + db" where
  "attempt_write s d =
     (case execute d s of
        (Some e, d') \<Rightarrow> Inl (DataIntegrityViolation e)
      | (None, d') \<Rightarrow> Inr d')"

section \<open>An example store\<close>

text \<open>One channel with one video, its transcript, one knowledge entry written without a
  confidence, one processing log row, one bias flag, and one queue item written without a
  severity and a status.\<close>

definition demo_channel :: channel_values where
  "demo_channel = \<lparr>chv_channel_id = Some ''UC-elk'', chv_channel_name = Some ''Elk Maven'',
     chv_channel_url = Some ''https://youtube.example/elk'', chv_description = None,
     chv_subscriber_count = None, chv_video_count = None, chv_thumbnail_url = None,
     chv_created_at = Omitted, chv_updated_at = Omitted\<rparr>"

definition demo_video :: video_values where
  "demo_video = \<lparr>vv_video_id = Some ''vid-001'', vv_channel_id = Some 1,
     vv_title = Some ''Calling elk'', vv_description = None, vv_published_at = None,
     vv_duration_seconds = None, vv_view_count = None, vv_like_count = None,
     vv_thumbnail_url = None, vv_ingestion_status = Omitted, vv_failure_reason = None,
     vv_created_at = Omitted, vv_updated_at = Omitted\<rparr>"

definition demo_transcript :: transcript_values where
  "demo_transcript = \<lparr>tv_video_id = Some 1, tv_language_code = Omitted,
     tv_is_generated = Omitted, tv_full_text = Some ''bugle at dawn'',
     tv_snippet_data = Some ''[]'', tv_word_count = Some 3, tv_created_at = Omitted\<rparr>"

definition demo_knowledge :: knowledge_values where
  "demo_knowledge = \<lparr>kv_video_id = Some 1, kv_entry_type = Some ''tip'',
     kv_title = Some ''Wind'', kv_content = Some ''Check the wind first'',
     kv_source_start_time = None, kv_source_end_time = None, kv_source_quote = None,
     kv_confidence = Omitted, kv_chunk_index = Some 0, kv_created_at = Omitted\<rparr>"

definition demo_log :: processing_log_values where
  "demo_log = \<lparr>plv_video_id = Some 1, plv_step = Some ''fetch_transcript'',
     plv_chunk_index = None, plv_status = Some ''completed'', plv_tokens_used = None,
     plv_error_message = None, plv_started_at = Omitted, plv_completed_at = None\<rparr>"

definition demo_flag :: bias_flag_values where
  "demo_flag = \<lparr>bv_knowledge_id = Some 1, bv_bias_type = Some ''sponsored'',
     bv_bias_severity = Given ''low'', bv_brand_names = None,
     bv_bias_notes = Some ''names a sponsor'', bv_detected_by = Omitted,
     bv_created_at = Omitted\<rparr>"

definition demo_item :: queue_values where
  "demo_item = \<lparr>qv_action_type = Some ''rescore'', qv_severity = Omitted, qv_status = Omitted,
     qv_target_type = Some ''knowledge_entry'', qv_target_id = Some 1,
     qv_description = Some ''rescore the entry'', qv_details = None, qv_created_at = Omitted,
     qv_resolved_at = None, qv_resolved_by = None\<rparr>"

definition demo_stmts :: "stmt list" where
  "demo_stmts = [InsertChannel ''t0'' 1 demo_channel, InsertVideo ''t1'' 1 demo_video,
     InsertTranscript ''t2'' 1 demo_transcript, InsertKnowledge ''t3'' 1 demo_knowledge,
     InsertProcessingLog ''t4'' 1 demo_log, InsertBiasFlag ''t5'' 1 demo_flag,
     InsertQueueItem ''t6'' 1 demo_item]"

definition demo_store :: db where
  "demo_store = run demo_stmts"

text \<open>The same store with a second video, its transcript, and a second bias flag on the
  knowledge entry.\<close>

definition demo_more_stmts :: "stmt list" where
  "demo_more_stmts =
     [InsertVideo ''t7'' 2 (demo_video\<lparr>vv_video_id := Some ''vid-002''\<rparr>),
      InsertTranscript ''t8'' 2 (demo_transcript\<lparr>tv_video_id := Some 2\<rparr>),
      InsertBiasFlag ''t9'' 2 (demo_flag\<lparr>bv_bias_type := Some ''affiliate''\<rparr>)]"

definition demo_store2 :: db where
  "demo_store2 = run (demo_stmts @ demo_more_stmts)"

section \<open>Properties of the web client\<close>

lemma lit_simps:
  "lit [] = []" "lit (c # s) = of_nat (of_char c) # lit s"
  by (simp_all add: lit_def)

lemma escape_unit_no_angle: "LT \<notin> set (escape_unit c) \<and> GT \<notin> set (escape_unit c)"
  by (simp add: escape_unit_def lit_simps LT_def GT_def AMP_def NBSP_def)

lemma escapeHtml_concat: "escapeHtml s = concat (map escape_unit s)"
  by (induction s) simp_all

lemma escapeHtml_no_angle: "LT \<notin> set (escapeHtml s) \<and> GT \<notin> set (escapeHtml s)"
  by (induction s) (simp_all add: escape_unit_no_angle)

text \<open>
  C8. The element that addMessageToUI appends carries, as its message body, the content
  passed through escapeHtml; escapeHtml works unit by unit and turns every \<open><\<close>, \<open>>\<close> and
  \<open>&\<close> into \<open>&lt;\<close>, \<open>&gt;\<close> and \<open>&amp;\<close>; so the escaped body holds no \<open><\<close> and no \<open>>\<close>,
  whatever the role and the content.
\<close>

theorem C8_message_body_escaped:
  "addMessageToUI container role content imageUrls route =
     container @
       [\<lparr>className = lit ''message '' @ role,
         innerHTML = indent 8 @ messageHeader role route
                   @ indent 8 @ (lit ''<div class=\"message-body\">'' @ escapeHtml content @ lit ''</div>'')
                   @ indent 8 @ imagesHtml imageUrls @ indent 4\<rparr>]
   \<and> escapeHtml content = concat (map escape_unit content)
   \<and> escape_unit LT = lit ''&lt;'' \<and> escape_unit GT = lit ''&gt;'' \<and> escape_unit AMP = lit ''&amp;''
   \<and> LT \<notin> set (escapeHtml content) \<and> GT \<notin> set (escapeHtml content)"
  by (simp add: addMessageToUI_def messageBody_def escapeHtml_concat [symmetric]
        escapeHtml_no_angle)
     (simp add: escape_unit_def LT_def GT_def AMP_def NBSP_def)

lemma array_pop_snoc: "array_pop (xs @ [x]) = (Some x, xs)"
  by (simp add: array_pop_def)

text \<open>
  C9. When the annotations list is not empty, the undo click removes its last element,
  appends that element to the undo stack, keeps the earlier annotations in order and
  changes nothing else of the canvas state; when the list is empty the click changes
  nothing at all.
\<close>

theorem C9_undo:
  "(annotations s \<noteq> [] \<longrightarrow>
      undoBtn_onclick s
        = s\<lparr>annotations := butlast (annotations s),
            undoStack := undoStack s @ [last (annotations s)]\<rparr>)
   \<and> (annotations s = [] \<longrightarrow> undoBtn_onclick s = s)"
proof (cases "annotations s" rule: rev_cases)
  case Nil
  then show ?thesis by (simp add: undoBtn_onclick_def)
next
  case (snoc xs x)
  then show ?thesis by (simp add: undoBtn_onclick_def array_pop_snoc)
qed

theorem C9_undo_witness:
  "undoBtn_onclick
      \<lparr>imageId = Some 1, tool = lit ''pen'', color = lit ''#ff0000'', lineWidth = 3,
        isDrawing = False, startX = 0, startY = 0,
        annotations = [Line 0 0 1 1 (lit ''#ff0000'') 3, Rect 0 0 2 2 (lit ''#ff0000'') 3],
        undoStack = [Text 5 5 (lit ''elk'') (lit ''#ff0000'') 16]\<rparr>
     = \<lparr>imageId = Some 1, tool = lit ''pen'', color = lit ''#ff0000'', lineWidth = 3,
        isDrawing = False, startX = 0, startY = 0,
        annotations = [Line 0 0 1 1 (lit ''#ff0000'') 3],
        undoStack = [Text 5 5 (lit ''elk'') (lit ''#ff0000'') 16, Rect 0 0 2 2 (lit ''#ff0000'') 3]\<rparr>
   \<and> undoBtn_onclick
      \<lparr>imageId = None, tool = lit ''pen'', color = lit ''#ff0000'', lineWidth = 3,
        isDrawing = False, startX = 0, startY = 0, annotations = [],
        undoStack = [Rect 0 0 2 2 (lit ''#ff0000'') 3]\<rparr>
      = \<lparr>imageId = None, tool = lit ''pen'', color = lit ''#ff0000'', lineWidth = 3,
        isDrawing = False, startX = 0, startY = 0, annotations = [],
        undoStack = [Rect 0 0 2 2 (lit ''#ff0000'') 3]\<rparr>"
  using C9_undo [of "\<lparr>imageId = Some 1, tool = lit ''pen'', color = lit ''#ff0000'', lineWidth = 3,
        isDrawing = False, startX = 0, startY = 0,
        annotations = [Line 0 0 1 1 (lit ''#ff0000'') 3, Rect 0 0 2 2 (lit ''#ff0000'') 3],
        undoStack = [Text 5 5 (lit ''elk'') (lit ''#ff0000'') 16]\<rparr>"]
    C9_undo [of "\<lparr>imageId = None, tool = lit ''pen'', color = lit ''#ff0000'', lineWidth = 3,
        isDrawing = False, startX = 0, startY = 0, annotations = [],
        undoStack = [Rect 0 0 2 2 (lit ''#ff0000'') 3]\<rparr>"]
  by simp

text \<open>
  C10. removeAttachment leaves the pending list with every occurrence of the given id
  removed and every other element kept, in the original order: the result is the prior
  list filtered, it holds exactly the other ids, and each of them as often as before.
\<close>

theorem C10_removeAttachment:
  "removeAttachment ids i = filter (\<lambda>x. x \<noteq> i) ids
   \<and> i \<notin> set (removeAttachment ids i)
   \<and> set (removeAttachment ids i) = set ids - {i}
   \<and> (\<forall>x. x \<noteq> i \<longrightarrow> count_list (removeAttachment ids i) x = count_list ids x)
   \<and> subseq (removeAttachment ids i) ids"
proof -
  have "count_list (filter (\<lambda>y. y \<noteq> i) ids) x = count_list ids x" if "x \<noteq> i" for x
    using that by (induction ids) auto
  then show ?thesis
    by (auto simp: removeAttachment_def)
qed

theorem C10_removeAttachment_witness:
  "removeAttachment [4, 7, 4, 9] 4 = [7, 9]
   \<and> count_list (removeAttachment [4, 7, 4, 9] 4) 7 = count_list [4, 7, 4, 9 :: int] 7"
  using C10_removeAttachment [of "[4, 7, 4, 9]" 4] by simp

section \<open>Properties of the database\<close>

subsection \<open>What the statements change\<close>

lemma foldl_knowledge_ad:
  "foldl (\<lambda>d' old. knowledge_ad old d') d olds =
     d\<lparr>knowledge_fts := foldl (\<lambda>idx old. fts_delete (k_id old) (knowledge_doc old) idx) (knowledge_fts d) olds\<rparr>"
  by (induction olds arbitrary: d) (simp_all add: knowledge_ad_def)

lemma foldl_transcript_ad:
  "foldl (\<lambda>d' old. transcript_ad old d') d olds =
     d\<lparr>transcript_fts := foldl (\<lambda>idx old. fts_delete (t_id old) (t_full_text old) idx) (transcript_fts d) olds\<rparr>"
  by (induction olds arbitrary: d) (simp_all add: transcript_ad_def)

lemma foldl_video_ad:
  "foldl (\<lambda>d' old. video_ad old d') d olds =
     d\<lparr>video_fts := foldl (\<lambda>idx old. fts_delete (v_id old) (video_doc old) idx) (video_fts d) olds\<rparr>"
  by (induction olds arbitrary: d) (simp_all add: video_ad_def)

lemma delete_transcripts_where_eq:
  "delete_transcripts_where P d =
     d\<lparr>transcripts := filter (\<lambda>t. \<not> P t) (transcripts d),
       transcript_fts := foldl (\<lambda>idx old. fts_delete (t_id old) (t_full_text old) idx)
                           (transcript_fts d) (filter P (transcripts d))\<rparr>"
  by (simp add: delete_transcripts_where_def foldl_transcript_ad Let_def)

lemma delete_knowledge_where_eq:
  "delete_knowledge_where P d =
     d\<lparr>knowledge_entries := filter (\<lambda>k. \<not> P k) (knowledge_entries d),
       bias_flags := filter (\<lambda>b. b_knowledge_id b \<notin> k_id ` {k \<in> set (knowledge_entries d). P k}) (bias_flags d),
       knowledge_fts := foldl (\<lambda>idx old. fts_delete (k_id old) (knowledge_doc old) idx)
                           (knowledge_fts d) (filter P (knowledge_entries d))\<rparr>"
  by (simp add: delete_knowledge_where_def delete_bias_flags_where_def foldl_knowledge_ad Let_def)

lemma delete_videos_where_eq:
  "delete_videos_where P d =
     d\<lparr>videos := filter (\<lambda>v. \<not> P v) (videos d),
       transcripts := filter (\<lambda>t. t_video_id t \<notin> v_id ` {v \<in> set (videos d). P v}) (transcripts d),
       transcript_fts := foldl (\<lambda>idx old. fts_delete (t_id old) (t_full_text old) idx)
                           (transcript_fts d)
                           (filter (\<lambda>t. t_video_id t \<in> v_id ` {v \<in> set (videos d). P v}) (transcripts d)),
       knowledge_entries := filter (\<lambda>k. k_video_id k \<notin> v_id ` {v \<in> set (videos d). P v}) (knowledge_entries d),
       bias_flags := filter (\<lambda>b. b_knowledge_id b \<notin>
                        k_id ` {k \<in> set (knowledge_entries d). k_video_id k \<in> v_id ` {v \<in> set (videos d). P v}})
                       (bias_flags d),
       knowledge_fts := foldl (\<lambda>idx old. fts_delete (k_id old) (knowledge_doc old) idx)
                           (knowledge_fts d)
                           (filter (\<lambda>k. k_video_id k \<in> v_id ` {v \<in> set (videos d). P v}) (knowledge_entries d)),
       processing_log := filter (\<lambda>l. pl_video_id l \<notin> v_id ` {v \<in> set (videos d). P v}) (processing_log d),
       video_fts := foldl (\<lambda>idx old. fts_delete (v_id old) (video_doc old) idx)
                           (video_fts d) (filter P (videos d))\<rparr>"
  by (simp add: delete_videos_where_def delete_transcripts_where_eq delete_knowledge_where_eq
        delete_processing_log_where_def foldl_video_ad Let_def)

lemma mset_foldl_fts_delete:
  "mset (foldl (\<lambda>idx old. fts_delete (f old) (g old) idx) idx olds) = mset idx - mset (map (\<lambda>r. (f r, g r)) olds)"
  by (induction olds arbitrary: idx) (simp_all add: fts_delete_def)

lemma mset_map_filter_diff:
  "mset (map e xs) - mset (map e (filter P xs)) = mset (map e (filter (\<lambda>x. \<not> P x) xs))"
proof -
  have "mset (map e xs) = mset (map e (filter P xs)) + mset (map e (filter (\<lambda>x. \<not> P x) xs))"
    by (induction xs) simp_all
  then show ?thesis by simp
qed

lemma map_gid_replace_row:
  "gid r = i \<Longrightarrow> map gid (replace_row gid i r rows) = map gid rows"
  by (induction rows) (simp_all add: replace_row_def)

lemma set_replace_row:
  "set (replace_row gid i r rows) \<subseteq> insert r (set rows)"
  by (auto simp: replace_row_def)

lemma mset_replace_row:
  "distinct (map gid rows) \<Longrightarrow> find (\<lambda>x. gid x = i) rows = Some old \<Longrightarrow> gid r = i \<Longrightarrow>
   mset (map e (replace_row gid i r rows)) = mset (map e rows) - {#e old#} + {#e r#}"
proof (induction rows)
  case Nil
  then show ?case by simp
next
  case (Cons x rows)
  show ?case
  proof (cases "gid x = i")
    case True
    with Cons.prems have "old = x" by simp
    from True Cons.prems have "i \<notin> gid ` set rows" by auto
    then have "\<forall>y\<in>set rows. gid y \<noteq> i" by blast
    then have "replace_row gid i r rows = rows" by (simp add: replace_row_def map_idI)
    with True \<open>old = x\<close> show ?thesis by (simp add: replace_row_def)
  next
    case False
    with Cons.prems have f: "find (\<lambda>x. gid x = i) rows = Some old" by simp
    then have "old \<in> set rows" by (auto simp: find_Some_iff)
    then have "e old \<in># mset (map e rows)" by simp
    moreover from Cons f have "mset (map e (replace_row gid i r rows)) = mset (map e rows) - {#e old#} + {#e r#}"
      by simp
    ultimately show ?thesis using False by (simp add: replace_row_def)
  qed
qed

lemma distinct_key_replace_row:
  "distinct (map gid rows) \<Longrightarrow> distinct (map key rows) \<Longrightarrow> gid r = i \<Longrightarrow>
   key r \<notin> set (map key (others gid i rows)) \<Longrightarrow>
   distinct (map key (replace_row gid i r rows))"
proof (induction rows)
  case Nil
  then show ?case by (simp add: replace_row_def)
next
  case (Cons x rows)
  show ?case
  proof (cases "gid x = i")
    case True
    with Cons.prems have "i \<notin> gid ` set rows" by auto
    then have "\<forall>y\<in>set rows. gid y \<noteq> i" by blast
    then have eqs: "replace_row gid i r rows = rows" "others gid i rows = rows"
      by (simp_all add: replace_row_def others_def map_idI)
    from True Cons.prems have "key r \<notin> set (map key (others gid i rows))"
      by (simp add: others_def)
    with eqs have "key r \<notin> set (map key rows)" by simp
    with True Cons.prems eqs show ?thesis by (simp add: replace_row_def)
  next
    case False
    with Cons.prems have ih: "distinct (map key (replace_row gid i r rows))"
      by (intro Cons.IH) (auto simp: others_def)
    have "key x \<notin> set (map key (replace_row gid i r rows))"
    proof
      assume "key x \<in> set (map key (replace_row gid i r rows))"
      then obtain y where y: "y \<in> set (replace_row gid i r rows)" "key y = key x" by auto
      then have "y = r \<or> y \<in> set rows" using set_replace_row [of gid i r rows] by auto
      then show False
      proof
        assume "y = r"
        with y False Cons.prems show False by (auto simp: others_def)
      next
        assume "y \<in> set rows"
        with y Cons.prems show False by (auto simp: image_iff)
      qed
    qed
    with ih False show ?thesis by (simp add: replace_row_def)
  qed
qed

lemmas insert_defs = insert_channel_def insert_video_def insert_transcript_def insert_knowledge_def
  insert_processing_log_def insert_bias_flag_def insert_queue_item_def
lemmas update_defs = update_channel_def update_video_def update_transcript_def update_knowledge_def
  update_processing_log_def update_bias_flag_def update_queue_item_def
lemmas delete_defs = delete_channel_def delete_video_def delete_transcript_def delete_knowledge_def
  delete_processing_log_def delete_bias_flag_def delete_queue_item_def
  delete_channels_where_def delete_videos_where_eq delete_transcripts_where_eq delete_knowledge_where_eq
  delete_processing_log_where_def delete_bias_flags_where_def delete_queue_items_where_def
lemmas trigger_defs = knowledge_ai_def knowledge_au_def video_ai_def video_au_def transcript_ai_def

lemma row_ids:
  "channel_row now i cv = Some cr \<Longrightarrow> ch_id cr = i"
  "video_row now i vv = Some vr \<Longrightarrow> v_id vr = i"
  "transcript_row now i tv = Some tr \<Longrightarrow> t_id tr = i"
  "knowledge_row now i kv = Some kr \<Longrightarrow> k_id kr = i"
  "processing_log_row now i lv = Some lr \<Longrightarrow> pl_id lr = i"
  "bias_flag_row now i bv = Some br \<Longrightarrow> b_id br = i"
  "queue_row now i qv = Some qr \<Longrightarrow> q_id qr = i"
  by (auto simp: channel_row_def video_row_def transcript_row_def knowledge_row_def
        processing_log_row_def bias_flag_row_def queue_row_def split: Option.bind_splits)

lemma keys_distinct_step:
  "keys_distinct d \<Longrightarrow> exec_stmt s d = Inr d' \<Longrightarrow> keys_distinct d'"
  by (cases s)
     (auto simp: keys_distinct_def insert_defs update_defs delete_defs trigger_defs Let_def
        map_gid_replace_row distinct_map_filter
        dest: row_ids split: option.splits if_splits)



subsection \<open>Statements preserve the invariants\<close>

lemma bias_unique_step:
  "keys_distinct d \<Longrightarrow> bias_unique d \<Longrightarrow> exec_stmt s d = Inr d' \<Longrightarrow> bias_unique d'"
  by (cases s)
     (auto simp: keys_distinct_def bias_unique_def insert_defs update_defs delete_defs trigger_defs
        Let_def distinct_map_filter distinct_key_replace_row
        split: option.splits if_splits)

lemma knowledge_valid_step:
  "knowledge_valid d \<Longrightarrow> exec_stmt s d = Inr d' \<Longrightarrow> knowledge_valid d'"
  by (cases s)
     (auto simp: knowledge_valid_def insert_defs update_defs delete_defs trigger_defs
        Let_def replace_row_def
        split: option.splits if_splits)

lemma queue_valid_step:
  "queue_valid d \<Longrightarrow> exec_stmt s d = Inr d' \<Longrightarrow> queue_valid d'"
  by (cases s)
     (auto simp: queue_valid_def insert_defs update_defs delete_defs trigger_defs
        Let_def replace_row_def
        split: option.splits if_splits)

subsection \<open>Statements and the indexes\<close>

lemma synced_after_delete:
  assumes "mset idx = mset (map (\<lambda>r. (f r, g r)) rows)"
  shows "mset (foldl (\<lambda>idx old. fts_delete (f old) (g old) idx) idx (filter P rows))
     = mset (map (\<lambda>r. (f r, g r)) (filter (\<lambda>x. \<not> P x) rows))"
proof -
  have "mset (foldl (\<lambda>idx old. fts_delete (f old) (g old) idx) idx (filter P rows))
      = mset idx - mset (map (\<lambda>r. (f r, g r)) (filter P rows))"
    by (rule mset_foldl_fts_delete)
  also have "\<dots> = mset (map (\<lambda>r. (f r, g r)) rows) - mset (map (\<lambda>r. (f r, g r)) (filter P rows))"
    by (simp only: assms)
  also have "\<dots> = mset (map (\<lambda>r. (f r, g r)) (filter (\<lambda>x. \<not> P x) rows))"
    by (rule mset_map_filter_diff)
  finally show ?thesis .
qed

lemma synced_after_update:
  assumes "mset idx = mset (map (\<lambda>r. (f r, g r)) rows)" "distinct (map f rows)"
    "find (\<lambda>x. f x = i) rows = Some old" "f r = i"
  shows "mset (fts_insert (f r) (g r) (fts_delete (f old) (g old) idx))
     = mset (map (\<lambda>r. (f r, g r)) (replace_row f i r rows))"
  using assms mset_replace_row [of f rows i old r "\<lambda>r. (f r, g r)"]
  by (simp add: fts_insert_def fts_delete_def)

lemma knowledge_synced_step:
  "keys_distinct d \<Longrightarrow> knowledge_synced d \<Longrightarrow> exec_stmt s d = Inr d' \<Longrightarrow> knowledge_synced d'"
proof (cases s)
  case (UpdateKnowledge i r)
  assume "keys_distinct d" "knowledge_synced d" "exec_stmt s d = Inr d'"
  with UpdateKnowledge show ?thesis
    using synced_after_update [of "knowledge_fts d" k_id knowledge_doc "knowledge_entries d" i _ "r\<lparr>k_id := i\<rparr>"]
    by (auto simp: keys_distinct_def knowledge_synced_def update_defs trigger_defs Let_def
        split: option.splits if_splits)
qed (auto simp: knowledge_synced_def insert_defs update_defs delete_defs trigger_defs
        Let_def synced_after_delete fts_insert_def
        split: option.splits if_splits)

lemma video_synced_step:
  "keys_distinct d \<Longrightarrow> video_synced d \<Longrightarrow> exec_stmt s d = Inr d' \<Longrightarrow> video_synced d'"
proof (cases s)
  case (UpdateVideo i r)
  assume "keys_distinct d" "video_synced d" "exec_stmt s d = Inr d'"
  with UpdateVideo show ?thesis
    using synced_after_update [of "video_fts d" v_id video_doc "videos d" i _ "r\<lparr>v_id := i\<rparr>"]
    by (auto simp: keys_distinct_def video_synced_def update_defs trigger_defs Let_def
        split: option.splits if_splits)
qed (auto simp: video_synced_def insert_defs update_defs delete_defs trigger_defs
        Let_def synced_after_delete fts_insert_def
        split: option.splits if_splits)

lemma transcript_synced_step:
  "transcript_synced d \<Longrightarrow> exec_stmt s d = Inr d' \<Longrightarrow> (\<forall>i r. s \<noteq> UpdateTranscript i r) \<Longrightarrow>
   transcript_synced d'"
  by (cases s)
     (auto simp: transcript_synced_def insert_defs update_defs delete_defs trigger_defs
        Let_def synced_after_delete fts_insert_def
        split: option.splits if_splits)


lemma bias_valid_delete_knowledge_where:
  assumes "bias_valid d" shows "bias_valid (delete_knowledge_where P d)"
proof -
  have "b_knowledge_id b \<in> k_id ` set (filter (\<lambda>k. \<not> P k) (knowledge_entries d))"
    if "b \<in> set (bias_flags d)" "b_knowledge_id b \<notin> k_id ` {k \<in> set (knowledge_entries d). P k}" for b
  proof -
    from assms that(1) obtain k where "k \<in> set (knowledge_entries d)" "b_knowledge_id b = k_id k"
      by (auto simp: bias_valid_def)
    with that(2) show ?thesis by force
  qed
  with assms show ?thesis
    by (simp add: bias_valid_def delete_knowledge_where_eq)
qed

lemma bias_valid_frame:
  "bias_valid (d\<lparr>channels := cs\<rparr>) = bias_valid d"
  "bias_valid (d\<lparr>videos := vs\<rparr>) = bias_valid d"
  "bias_valid (d\<lparr>transcripts := ts\<rparr>) = bias_valid d"
  "bias_valid (d\<lparr>processing_log := ls\<rparr>) = bias_valid d"
  "bias_valid (d\<lparr>optimization_queue := qs\<rparr>) = bias_valid d"
  "bias_valid (d\<lparr>knowledge_fts := kf\<rparr>) = bias_valid d"
  "bias_valid (d\<lparr>transcript_fts := tf\<rparr>) = bias_valid d"
  "bias_valid (d\<lparr>video_fts := vf\<rparr>) = bias_valid d"
  by (simp_all add: bias_valid_def)

lemma bias_valid_delete_videos_where:
  "bias_valid d \<Longrightarrow> bias_valid (delete_videos_where P d)"
  by (simp add: delete_videos_where_def Let_def foldl_video_ad bias_valid_frame
        delete_processing_log_where_def bias_valid_delete_knowledge_where
        delete_transcripts_where_eq)

lemma bias_valid_step:
  "bias_valid d \<Longrightarrow> exec_stmt s d = Inr d' \<Longrightarrow> bias_valid d'"
proof (cases s)
  case (DeleteChannel i)
  assume "bias_valid d" "exec_stmt s d = Inr d'"
  with DeleteChannel show ?thesis
    by (auto simp: delete_channel_def delete_channels_where_def Let_def bias_valid_frame
        intro!: bias_valid_delete_videos_where)
next
  case (DeleteVideo i)
  assume "bias_valid d" "exec_stmt s d = Inr d'"
  with DeleteVideo show ?thesis
    by (auto simp: delete_video_def intro!: bias_valid_delete_videos_where)
next
  case (DeleteKnowledge i)
  assume "bias_valid d" "exec_stmt s d = Inr d'"
  with DeleteKnowledge show ?thesis
    by (auto simp: delete_knowledge_def intro!: bias_valid_delete_knowledge_where)
next
  case (InsertKnowledge now i v)
  assume "bias_valid d" "exec_stmt s d = Inr d'"
  with InsertKnowledge show ?thesis
    by (auto simp: bias_valid_def insert_knowledge_def knowledge_ai_def
        split: option.splits if_splits)
next
  case (UpdateKnowledge i r)
  assume "bias_valid d" "exec_stmt s d = Inr d'"
  with UpdateKnowledge show ?thesis
    by (auto simp: bias_valid_def update_knowledge_def knowledge_au_def Let_def
          map_gid_replace_row simp flip: set_map
        split: option.splits if_splits)
next
  case (InsertBiasFlag now i v)
  assume "bias_valid d" "exec_stmt s d = Inr d'"
  with InsertBiasFlag show ?thesis
    by (auto simp: bias_valid_def insert_bias_flag_def split: option.splits if_splits)
next
  case (UpdateBiasFlag i r)
  assume "bias_valid d" "exec_stmt s d = Inr d'"
  with UpdateBiasFlag show ?thesis
    by (auto simp: bias_valid_def update_bias_flag_def Let_def replace_row_def
        split: option.splits if_splits)
next
  case (DeleteBiasFlag i)
  assume "bias_valid d" "exec_stmt s d = Inr d'"
  with DeleteBiasFlag show ?thesis
    by (auto simp: bias_valid_def delete_bias_flag_def delete_bias_flags_where_def)
qed (auto simp: insert_defs update_defs delete_transcript_def delete_transcripts_where_eq
        delete_processing_log_def delete_processing_log_where_def
        delete_queue_item_def delete_queue_items_where_def
        trigger_defs Let_def bias_valid_frame
        split: option.splits if_splits)

subsection \<open>Every reachable store satisfies the invariants\<close>

lemma db_inv_empty: "db_inv empty_db"
  by (simp add: db_inv_def empty_db_def keys_distinct_def bias_unique_def bias_valid_def
      knowledge_valid_def queue_valid_def knowledge_synced_def video_synced_def)

lemma db_inv_step:
  assumes "db_inv d" and s: "exec_stmt s d = Inr d'"
  shows "db_inv d'"
proof -
  from assms(1) have k: "keys_distinct d" and u: "bias_unique d" and b: "bias_valid d"
    and kv: "knowledge_valid d" and q: "queue_valid d" and ks: "knowledge_synced d"
    and vs: "video_synced d"
    by (simp_all add: db_inv_def)
  show ?thesis
    unfolding db_inv_def
    using keys_distinct_step [OF k s] bias_unique_step [OF k u s] bias_valid_step [OF b s]
      knowledge_valid_step [OF kv s] queue_valid_step [OF q s]
      knowledge_synced_step [OF k ks s] video_synced_step [OF k vs s]
    by simp
qed

lemma reachable_inv: "reachable d \<Longrightarrow> db_inv d"
proof (induction rule: reachable.induct)
  case reachable_empty
  show ?case by (rule db_inv_empty)
next
  case (reachable_step d s)
  then show ?case
    by (cases "exec_stmt s d") (auto simp: execute_def dest: db_inv_step)
qed

lemma reachable_run: "reachable (run ss)"
proof (induction ss rule: rev_induct)
  case Nil
  show ?case by (simp add: run_def reachable_empty)
next
  case (snoc s ss)
  then show ?case by (simp add: run_def reachable_step)
qed


subsection \<open>The example store\<close>

lemmas demo_defs = demo_store_def demo_stmts_def demo_channel_def demo_video_def demo_transcript_def
  demo_knowledge_def demo_log_def demo_flag_def demo_item_def
lemmas row_defs = channel_row_def video_row_def transcript_row_def knowledge_row_def
  processing_log_row_def bias_flag_row_def queue_row_def
lemmas check_defs = video_check_def knowledge_check_def processing_log_check_def
  bias_flag_check_def queue_check_def ingestion_statuses_def entry_types_def log_steps_def
  log_statuses_def bias_types_def bias_severities_def action_types_def queue_severities_def
  queue_statuses_def

lemma demo_store_value:
  "demo_store =
   \<lparr>channels =
      [\<lparr>ch_id = 1, ch_channel_id = ''UC-elk'', ch_channel_name = ''Elk Maven'',
        ch_channel_url = ''https://youtube.example/elk'', ch_description = None,
        ch_subscriber_count = None, ch_video_count = None, ch_thumbnail_url = None,
        ch_created_at = ''t0'', ch_updated_at = ''t0''\<rparr>],
    videos =
      [\<lparr>v_id = 1, v_video_id = ''vid-001'', v_channel_id = 1, v_title = ''Calling elk'',
        v_description = None, v_published_at = None, v_duration_seconds = None,
        v_view_count = None, v_like_count = None, v_thumbnail_url = None,
        v_ingestion_status = ''pending'', v_failure_reason = None,
        v_created_at = ''t1'', v_updated_at = ''t1''\<rparr>],
    transcripts =
      [\<lparr>t_id = 1, t_video_id = 1, t_language_code = ''en'', t_is_generated = False,
        t_full_text = ''bugle at dawn'', t_snippet_data = ''[]'', t_word_count = 3,
        t_created_at = ''t2''\<rparr>],
    knowledge_entries =
      [\<lparr>k_id = 1, k_video_id = 1, k_entry_type = ''tip'', k_title = ''Wind'',
        k_content = ''Check the wind first'', k_source_start_time = None,
        k_source_end_time = None, k_source_quote = None, k_confidence = 4 / 5,
        k_chunk_index = Some 0, k_created_at = ''t3''\<rparr>],
    processing_log =
      [\<lparr>pl_id = 1, pl_video_id = 1, pl_step = ''fetch_transcript'', pl_chunk_index = None,
        pl_status = ''completed'', pl_tokens_used = None, pl_error_message = None,
        pl_started_at = ''t4'', pl_completed_at = None\<rparr>],
    bias_flags =
      [\<lparr>b_id = 1, b_knowledge_id = 1, b_bias_type = ''sponsored'', b_bias_severity = ''low'',
        b_brand_names = None, b_bias_notes = ''names a sponsor'',
        b_detected_by = ''bias_agent'', b_created_at = ''t5''\<rparr>],
    optimization_queue =
      [\<lparr>q_id = 1, q_action_type = ''rescore'', q_severity = ''suggestion'',
        q_status = ''pending'', q_target_type = ''knowledge_entry'', q_target_id = Some 1,
        q_description = ''rescore the entry'', q_details = None, q_created_at = ''t6'',
        q_resolved_at = None, q_resolved_by = None\<rparr>],
    knowledge_fts = [(1, ''Wind'', ''Check the wind first'', None)],
    transcript_fts = [(1, ''bugle at dawn'')],
    video_fts = [(1, ''Calling elk'', None)]\<rparr>"
  by (simp add: demo_defs run_def execute_def empty_db_def insert_defs row_defs check_defs
      trigger_defs fts_insert_def bias_key_def video_doc_def knowledge_doc_def)

lemma reachable_demo: "reachable demo_store"
  unfolding demo_store_def by (rule reachable_run)

section \<open>Knowledge entries: confidence and kind\<close>

lemma knowledge_row_confidence:
  "knowledge_row now i v = Some r \<Longrightarrow>
     k_confidence r = (case kv_confidence v of Omitted \<Rightarrow> 0.8 | Given c \<Rightarrow> c | Null \<Rightarrow> k_confidence r)"
  by (cases "kv_confidence v") (auto simp: knowledge_row_def split: Option.bind_splits)

lemma find_in_set: "x \<in> set xs \<Longrightarrow> P x \<Longrightarrow> find P xs \<noteq> None"
  by (auto simp: find_None_iff)

text \<open>
  C5. In every store that statements can build, each knowledge entry has a confidence
  between 0 and 1 and one of the seven entry types. An insert that gives a confidence
  outside the range is aborted with an error and leaves the store as it was, and so does
  an update of an existing entry to such a confidence. An insert that gives no confidence
  stores 0.8.
\<close>

theorem C5_knowledge_entry_constraints:
  "(reachable d \<longrightarrow>
      (\<forall>r \<in> set (knowledge_entries d).
         0 \<le> k_confidence r \<and> k_confidence r \<le> 1
         \<and> k_entry_type r \<in> {''insight'', ''tip'', ''concept'', ''technique'', ''warning'',
                               ''resource'', ''quote''}))
   \<and> (kv_confidence v = Given c \<and> (c < 0 \<or> 1 < c) \<longrightarrow>
        (\<exists>e. execute d (InsertKnowledge now i v) = (Some e, d)))
   \<and> ((k_confidence new < 0 \<or> 1 < k_confidence new) \<and> old \<in> set (knowledge_entries d) \<longrightarrow>
        execute d (UpdateKnowledge (k_id old) new) = (Some CheckViolation, d))
   \<and> (kv_confidence v' = Omitted \<and> insert_knowledge now' d i' v' = Inr d' \<longrightarrow>
        (\<exists>r. knowledge_entries d' = knowledge_entries d @ [r] \<and> k_id r = i' \<and> k_confidence r = 0.8))"
proof (intro conjI impI)
  assume "reachable d"
  then have "knowledge_valid d" by (auto dest: reachable_inv simp: db_inv_def)
  then show "\<forall>r \<in> set (knowledge_entries d).
         0 \<le> k_confidence r \<and> k_confidence r \<le> 1
         \<and> k_entry_type r \<in> {''insight'', ''tip'', ''concept'', ''technique'', ''warning'',
                               ''resource'', ''quote''}"
    by (simp add: knowledge_valid_def knowledge_check_def entry_types_def)
next
  assume a: "kv_confidence v = Given c \<and> (c < 0 \<or> 1 < c)"
  show "\<exists>e. execute d (InsertKnowledge now i v) = (Some e, d)"
  proof (cases "knowledge_row now i v")
    case None
    then show ?thesis by (simp add: execute_def insert_knowledge_def)
  next
    case (Some r)
    with a have "k_confidence r = c" by (auto dest: knowledge_row_confidence)
    with a have "\<not> knowledge_check r" by (auto simp: knowledge_check_def)
    with Some show ?thesis by (simp add: execute_def insert_knowledge_def)
  qed
next
  assume a: "(k_confidence new < 0 \<or> 1 < k_confidence new) \<and> old \<in> set (knowledge_entries d)"
  then have "old \<in> set (knowledge_entries d)" by simp
  then have "find (\<lambda>x. k_id x = k_id old) (knowledge_entries d) \<noteq> None"
    by (rule find_in_set) simp
  moreover from a have "\<not> knowledge_check (new\<lparr>k_id := k_id old\<rparr>)"
    by (auto simp: knowledge_check_def)
  ultimately show "execute d (UpdateKnowledge (k_id old) new) = (Some CheckViolation, d)"
    by (auto simp: execute_def update_knowledge_def Let_def)
next
  assume a: "kv_confidence v' = Omitted \<and> insert_knowledge now' d i' v' = Inr d'"
  then obtain r where r: "knowledge_row now' i' v' = Some r"
    by (auto simp: insert_knowledge_def split: option.splits)
  with a have "k_confidence r = 0.8" "k_id r = i'"
    by (auto dest: knowledge_row_confidence row_ids)
  moreover from a r have "knowledge_entries d' = knowledge_entries d @ [r]"
    by (auto simp: insert_knowledge_def knowledge_ai_def split: if_splits)
  ultimately show "\<exists>r. knowledge_entries d' = knowledge_entries d @ [r] \<and> k_id r = i' \<and> k_confidence r = 0.8"
    by blast
qed


theorem C5_knowledge_entry_constraints_witness:
  "reachable demo_store
   \<and> hd (knowledge_entries demo_store) \<in> set (knowledge_entries demo_store)
   \<and> 0 \<le> k_confidence (hd (knowledge_entries demo_store))
   \<and> k_confidence (hd (knowledge_entries demo_store)) \<le> 1
   \<and> k_entry_type (hd (knowledge_entries demo_store)) \<in> set entry_types
   \<and> (\<exists>e. execute demo_store
              (InsertKnowledge ''t7'' 2 (demo_knowledge\<lparr>kv_confidence := Given (3 / 2)\<rparr>))
            = (Some e, demo_store))
   \<and> execute demo_store
        (UpdateKnowledge 1 ((hd (knowledge_entries demo_store))\<lparr>k_confidence := - 1\<rparr>))
      = (Some CheckViolation, demo_store)
   \<and> (\<exists>d' r. insert_knowledge ''t7'' demo_store 2 demo_knowledge = Inr d'
          \<and> knowledge_entries d' = knowledge_entries demo_store @ [r]
          \<and> k_id r = 2 \<and> k_confidence r = 0.8)"
proof -
  let ?e = "hd (knowledge_entries demo_store)"
  have mem: "?e \<in> set (knowledge_entries demo_store)" and k1: "k_id ?e = 1"
    by (simp_all add: demo_store_value)
  obtain d' where ins: "insert_knowledge ''t7'' demo_store 2 demo_knowledge = Inr d'"
    by (simp add: demo_store_value insert_knowledge_def knowledge_row_def demo_knowledge_def
        check_defs)
  note C = C5_knowledge_entry_constraints [where d = demo_store
      and v = "demo_knowledge\<lparr>kv_confidence := Given (3 / 2)\<rparr>" and c = "3 / 2"
      and now = "''t7''" and i = 2 and new = "?e\<lparr>k_confidence := - 1\<rparr>" and old = ?e
      and v' = demo_knowledge and now' = "''t7''" and i' = 2 and d' = d']
  from C reachable_demo mem
  have 1: "0 \<le> k_confidence ?e \<and> k_confidence ?e \<le> 1 \<and> k_entry_type ?e \<in> set entry_types"
    by (simp add: entry_types_def)
  from C have 2: "\<exists>e. execute demo_store
              (InsertKnowledge ''t7'' 2 (demo_knowledge\<lparr>kv_confidence := Given (3 / 2)\<rparr>))
            = (Some e, demo_store)"
    by simp
  from C mem k1 have 3: "execute demo_store (UpdateKnowledge 1 (?e\<lparr>k_confidence := - 1\<rparr>))
      = (Some CheckViolation, demo_store)"
    by simp
  from C ins have 4: "\<exists>r. knowledge_entries d' = knowledge_entries demo_store @ [r]
          \<and> k_id r = 2 \<and> k_confidence r = 0.8"
    by (simp add: demo_knowledge_def)
  from reachable_demo mem 1 2 3 4 ins show ?thesis by blast
qed


section \<open>Optimization queue: status, severity and enqueue\<close>

lemma queue_row_fields:
  "queue_row now i v = Some r \<Longrightarrow>
     q_id r = i
     \<and> (\<forall>s. qv_status v = Given s \<longrightarrow> q_status r = s)
     \<and> (qv_status v = Omitted \<longrightarrow> q_status r = ''pending'')
     \<and> (\<forall>s. qv_severity v = Given s \<longrightarrow> q_severity r = s)
     \<and> (qv_severity v = Omitted \<longrightarrow> q_severity r = ''suggestion'')"
  by (cases "qv_status v"; cases "qv_severity v")
     (auto simp: queue_row_def split: Option.bind_splits)

lemma insert_queue_item_result:
  assumes "insert_queue_item now d i v = Inr d'"
  shows "\<exists>r. queue_row now i v = Some r \<and> d' = d\<lparr>optimization_queue := optimization_queue d @ [r]\<rparr>"
  using assms by (auto simp: insert_queue_item_def split: option.splits if_splits)

text \<open>
  C6. In every store that statements can build, each queue item has one of the five
  statuses and one of the three severities. Enqueueing with severity suggestion or
  destructive adds one item whose status is pending, the column's default. Enqueueing with
  severity auto performs the action at once and adds the item as executed when the action
  succeeded and as failed when it raised an error: the item is never pending or approved.
\<close>

theorem C6_queue_item_status:
  "(reachable d \<longrightarrow>
      (\<forall>q \<in> set (optimization_queue d).
         q_status q \<in> {''pending'', ''approved'', ''rejected'', ''executed'', ''failed''}
         \<and> q_severity q \<in> {''auto'', ''suggestion'', ''destructive''}))
   \<and> ((severity = ''suggestion'' \<or> severity = ''destructive'')
        \<and> enqueue perform now d i a severity tt tid descr det = Inr d' \<longrightarrow>
        (\<exists>r. d' = d\<lparr>optimization_queue := optimization_queue d @ [r]\<rparr> \<and> q_id r = i
           \<and> q_severity r = severity \<and> q_status r = ''pending''))
   \<and> (perform d = Inr dx \<and> enqueue perform now d i a ''auto'' tt tid descr det = Inr dy \<longrightarrow>
        (\<exists>r. dy = dx\<lparr>optimization_queue := optimization_queue dx @ [r]\<rparr> \<and> q_id r = i
           \<and> q_severity r = ''auto'' \<and> q_status r = ''executed''))
   \<and> (perform d = Inl err \<and> enqueue perform now d i a ''auto'' tt tid descr det = Inr dz \<longrightarrow>
        (\<exists>r. dz = d\<lparr>optimization_queue := optimization_queue d @ [r]\<rparr> \<and> q_id r = i
           \<and> q_severity r = ''auto'' \<and> q_status r = ''failed''))"
proof (intro conjI impI)
  assume "reachable d"
  then have "queue_valid d" by (auto dest: reachable_inv simp: db_inv_def)
  then show "\<forall>q \<in> set (optimization_queue d).
         q_status q \<in> {''pending'', ''approved'', ''rejected'', ''executed'', ''failed''}
         \<and> q_severity q \<in> {''auto'', ''suggestion'', ''destructive''}"
    by (simp add: queue_valid_def queue_check_def queue_statuses_def queue_severities_def)
next
  assume a: "(severity = ''suggestion'' \<or> severity = ''destructive'')
        \<and> enqueue perform now d i a severity tt tid descr det = Inr d'"
  then have "severity \<noteq> ''auto''" by auto
  with a obtain r where "queue_row now i
       \<lparr>qv_action_type = Some a, qv_severity = Given severity, qv_status = Omitted,
        qv_target_type = Some tt, qv_target_id = tid, qv_description = Some descr,
        qv_details = det, qv_created_at = Omitted, qv_resolved_at = None,
        qv_resolved_by = None\<rparr> = Some r"
    and "d' = d\<lparr>optimization_queue := optimization_queue d @ [r]\<rparr>"
    by (auto simp: enqueue_def Let_def dest!: insert_queue_item_result)
  then show "\<exists>r. d' = d\<lparr>optimization_queue := optimization_queue d @ [r]\<rparr> \<and> q_id r = i
           \<and> q_severity r = severity \<and> q_status r = ''pending''"
    by (auto dest!: queue_row_fields)
next
  assume a: "perform d = Inr dx \<and> enqueue perform now d i a ''auto'' tt tid descr det = Inr dy"
  then obtain r where "queue_row now i
       \<lparr>qv_action_type = Some a, qv_severity = Given ''auto'', qv_status = Given ''executed'',
        qv_target_type = Some tt, qv_target_id = tid, qv_description = Some descr,
        qv_details = det, qv_created_at = Omitted, qv_resolved_at = None,
        qv_resolved_by = None\<rparr> = Some r"
    and "dy = dx\<lparr>optimization_queue := optimization_queue dx @ [r]\<rparr>"
    by (auto simp: enqueue_def Let_def dest!: insert_queue_item_result)
  then show "\<exists>r. dy = dx\<lparr>optimization_queue := optimization_queue dx @ [r]\<rparr> \<and> q_id r = i
           \<and> q_severity r = ''auto'' \<and> q_status r = ''executed''"
    by (auto dest!: queue_row_fields)
next
  assume a: "perform d = Inl err \<and> enqueue perform now d i a ''auto'' tt tid descr det = Inr dz"
  then obtain r where "queue_row now i
       \<lparr>qv_action_type = Some a, qv_severity = Given ''auto'', qv_status = Given ''failed'',
        qv_target_type = Some tt, qv_target_id = tid, qv_description = Some descr,
        qv_details = det, qv_created_at = Omitted, qv_resolved_at = None,
        qv_resolved_by = None\<rparr> = Some r"
    and "dz = d\<lparr>optimization_queue := optimization_queue d @ [r]\<rparr>"
    by (auto simp: enqueue_def Let_def dest!: insert_queue_item_result)
  then show "\<exists>r. dz = d\<lparr>optimization_queue := optimization_queue d @ [r]\<rparr> \<and> q_id r = i
           \<and> q_severity r = ''auto'' \<and> q_status r = ''failed''"
    by (auto dest!: queue_row_fields)
qed


theorem C6_queue_item_status_witness:
  "reachable demo_store
   \<and> hd (optimization_queue demo_store) \<in> set (optimization_queue demo_store)
   \<and> q_status (hd (optimization_queue demo_store)) \<in> set queue_statuses
   \<and> q_severity (hd (optimization_queue demo_store)) \<in> set queue_severities
   \<and> (\<exists>d' r. enqueue (\<lambda>d. Inr d) ''t7'' demo_store 2 ''delete_entry'' ''destructive''
                 ''knowledge_entry'' (Some 1) ''drop the entry'' None = Inr d'
          \<and> d' = demo_store\<lparr>optimization_queue := optimization_queue demo_store @ [r]\<rparr>
          \<and> q_id r = 2 \<and> q_severity r = ''destructive'' \<and> q_status r = ''pending'')
   \<and> (\<exists>d2 r. enqueue (\<lambda>d. Inr (delete_bias_flag d 1)) ''t7'' demo_store 2 ''rescore'' ''auto''
                 ''knowledge_entry'' (Some 1) ''rescore the entry'' None = Inr d2
          \<and> d2 = (delete_bias_flag demo_store 1)
                   \<lparr>optimization_queue := optimization_queue (delete_bias_flag demo_store 1) @ [r]\<rparr>
          \<and> q_id r = 2 \<and> q_severity r = ''auto'' \<and> q_status r = ''executed'')
   \<and> (\<exists>d3 r. enqueue (\<lambda>d. Inl ''no such entry'') ''t7'' demo_store 2 ''rescore'' ''auto''
                 ''knowledge_entry'' (Some 9) ''rescore the entry'' None = Inr d3
          \<and> d3 = demo_store\<lparr>optimization_queue := optimization_queue demo_store @ [r]\<rparr>
          \<and> q_id r = 2 \<and> q_severity r = ''auto'' \<and> q_status r = ''failed'')"
proof -
  let ?q = "hd (optimization_queue demo_store)"
  have mem: "?q \<in> set (optimization_queue demo_store)"
    by (simp add: demo_store_value)
  obtain d' where e1: "enqueue (\<lambda>d. Inr d) ''t7'' demo_store 2 ''delete_entry'' ''destructive''
                 ''knowledge_entry'' (Some 1) ''drop the entry'' None = Inr d'"
    by (simp add: enqueue_def insert_queue_item_def queue_row_def check_defs demo_store_value)
  obtain d2 where e2: "enqueue (\<lambda>d. Inr (delete_bias_flag d 1)) ''t7'' demo_store 2 ''rescore''
                 ''auto'' ''knowledge_entry'' (Some 1) ''rescore the entry'' None = Inr d2"
    by (simp add: enqueue_def insert_queue_item_def queue_row_def check_defs demo_store_value
        delete_bias_flag_def delete_bias_flags_where_def)
  obtain d3 where e3: "enqueue (\<lambda>d. Inl ''no such entry'') ''t7'' demo_store 2 ''rescore'' ''auto''
                 ''knowledge_entry'' (Some 9) ''rescore the entry'' None = Inr d3"
    by (simp add: enqueue_def insert_queue_item_def queue_row_def check_defs demo_store_value)
  from C6_queue_item_status [where d = demo_store] reachable_demo mem
  have 1: "q_status ?q \<in> set queue_statuses \<and> q_severity ?q \<in> set queue_severities"
    by (simp add: queue_statuses_def queue_severities_def)
  from C6_queue_item_status [where d = demo_store and perform = "\<lambda>d. Inr d" and d' = d'
      and severity = "''destructive''"] e1
  have 2: "\<exists>r. d' = demo_store\<lparr>optimization_queue := optimization_queue demo_store @ [r]\<rparr>
          \<and> q_id r = 2 \<and> q_severity r = ''destructive'' \<and> q_status r = ''pending''"
    by blast
  from C6_queue_item_status [where d = demo_store and perform = "\<lambda>d. Inr (delete_bias_flag d 1)"
      and dx = "delete_bias_flag demo_store 1" and dy = d2] e2
  have 3: "\<exists>r. d2 = (delete_bias_flag demo_store 1)
                   \<lparr>optimization_queue := optimization_queue (delete_bias_flag demo_store 1) @ [r]\<rparr>
          \<and> q_id r = 2 \<and> q_severity r = ''auto'' \<and> q_status r = ''executed''"
    by blast
  from C6_queue_item_status [where d = demo_store and perform = "\<lambda>d. Inl ''no such entry''"
      and err = "''no such entry''" and dz = d3] e3
  have 4: "\<exists>r. d3 = demo_store\<lparr>optimization_queue := optimization_queue demo_store @ [r]\<rparr>
          \<and> q_id r = 2 \<and> q_severity r = ''auto'' \<and> q_status r = ''failed''"
    by blast
  from reachable_demo mem 1 2 3 4 e1 e2 e3 show ?thesis by blast
qed


section \<open>Bias flags: one flag per entry and bias type\<close>

lemma filter_key_singleton:
  "distinct (map key rows) \<Longrightarrow> x \<in> set rows \<Longrightarrow> filter (\<lambda>b. key b = key x) rows = [x]"
proof (induction rows)
  case Nil
  then show ?case by simp
next
  case (Cons y rows)
  show ?case
  proof (cases "x = y")
    case True
    from Cons.prems have "key y \<notin> key ` set rows" by simp
    then have "\<forall>b\<in>set rows. key b \<noteq> key y" by (metis imageI)
    then have "filter (\<lambda>b. key b = key y) rows = []" by (simp add: filter_empty_conv)
    with True show ?thesis by simp
  next
    case False
    with Cons.prems have "x \<in> set rows" by simp
    moreover from Cons.prems this have "key y \<noteq> key x" by force
    ultimately show ?thesis using Cons by simp
  qed
qed

lemma find_key_unique:
  "distinct (map key rows) \<Longrightarrow> x \<in> set rows \<Longrightarrow> find (\<lambda>b. key b = key x) rows = Some x"
proof (induction rows)
  case Nil
  then show ?case by simp
next
  case (Cons y rows)
  show ?case
  proof (cases "x = y")
    case True
    then show ?thesis by simp
  next
    case False
    with Cons.prems have "x \<in> set rows" by simp
    moreover from Cons.prems this have "key y \<noteq> key x" by force
    ultimately show ?thesis using Cons by simp
  qed
qed

lemma key_not_in_others:
  assumes "distinct (map key rows)" "old \<in> set rows"
  shows "key old \<notin> set (map key (others gid (gid old) rows))"
proof
  assume "key old \<in> set (map key (others gid (gid old) rows))"
  then obtain y where y: "y \<in> set rows" "gid y \<noteq> gid old" "key y = key old"
    by (auto simp: others_def)
  from assms(1) have "inj_on key (set rows)" by (simp add: distinct_map)
  with y assms(2) have "y = old" by (auto dest: inj_onD)
  with y show False by simp
qed

lemma replace_row_mem:
  "x \<in> set rows \<Longrightarrow> gid x = i \<Longrightarrow> r \<in> set (replace_row gid i r rows)"
  by (force simp: replace_row_def)

lemma upsert_existing:
  assumes inv: "db_inv d" and old: "old \<in> set (bias_flags d)"
    and ty: "br_bias_type res = b_bias_type old" and sev: "br_severity res \<in> set bias_severities"
  defines "new \<equiv> old\<lparr>b_bias_severity := br_severity res, b_bias_notes := br_notes res\<rparr>"
  shows "upsert_bias_flag now d i (b_knowledge_id old) res
           = Inr (d\<lparr>bias_flags := replace_row b_id (b_id old) new (bias_flags d)\<rparr>)"
proof -
  from inv have kd: "distinct (map b_id (bias_flags d))" and bu: "distinct (map bias_key (bias_flags d))"
    and bv: "bias_valid d"
    by (simp_all add: db_inv_def keys_distinct_def bias_unique_def)
  have key: "(b_knowledge_id old, br_bias_type res) = bias_key old"
    by (simp add: bias_key_def ty)
  have f1: "find (\<lambda>b. bias_key b = (b_knowledge_id old, br_bias_type res)) (bias_flags d) = Some old"
    unfolding key using bu old by (rule find_key_unique)
  have f2: "find (\<lambda>x. b_id x = b_id old) (bias_flags d) = Some old"
    using kd old by (rule find_key_unique)
  have idn: "new\<lparr>b_id := b_id old\<rparr> = new" by (simp add: new_def)
  from bv old sev have chk: "bias_flag_check new"
    by (auto simp: bias_valid_def bias_flag_check_def new_def)
  have "bias_key new = bias_key old" by (simp add: new_def bias_key_def)
  with key_not_in_others [OF bu old, of b_id]
  have uq: "bias_key new \<notin> set (map bias_key (others b_id (b_id old) (bias_flags d)))"
    by simp
  from bv old have fk: "b_knowledge_id new \<in> set (map k_id (knowledge_entries d))"
    by (auto simp: bias_valid_def new_def)
  from f1 f2 chk uq fk show ?thesis
    by (simp add: upsert_bias_flag_def update_bias_flag_def Let_def idn flip: new_def)
qed

text \<open>
  C4. In every store that statements can build, no two bias flags share the pair
  (knowledge id, bias type). Upserting a detection result for an entry that already has a
  flag of that type, with any of the three severities, succeeds, leaves the number of bias
  flags as it was, and leaves exactly one flag for that entry and type: the old row with
  the new severity and notes.
\<close>

theorem C4_bias_flag_unique:
  "(reachable d \<longrightarrow> distinct (map (\<lambda>b. (b_knowledge_id b, b_bias_type b)) (bias_flags d)))
   \<and> (reachable d \<and> old \<in> set (bias_flags d) \<and> br_bias_type res = b_bias_type old
        \<and> br_severity res \<in> {''low'', ''medium'', ''high''} \<longrightarrow>
        (\<exists>d'. upsert_bias_flag now d i (b_knowledge_id old) res = Inr d'
           \<and> length (bias_flags d') = length (bias_flags d)
           \<and> filter (\<lambda>b. b_knowledge_id b = b_knowledge_id old \<and> b_bias_type b = b_bias_type old)
                (bias_flags d')
              = [old\<lparr>b_bias_severity := br_severity res, b_bias_notes := br_notes res\<rparr>]))"
proof (intro conjI impI)
  assume "reachable d"
  then have "bias_unique d" by (auto dest: reachable_inv simp: db_inv_def)
  then show "distinct (map (\<lambda>b. (b_knowledge_id b, b_bias_type b)) (bias_flags d))"
    by (simp add: bias_unique_def bias_key_def [abs_def])
next
  assume a: "reachable d \<and> old \<in> set (bias_flags d) \<and> br_bias_type res = b_bias_type old
        \<and> br_severity res \<in> {''low'', ''medium'', ''high''}"
  define new where "new = old\<lparr>b_bias_severity := br_severity res, b_bias_notes := br_notes res\<rparr>"
  define d' where "d' = d\<lparr>bias_flags := replace_row b_id (b_id old) new (bias_flags d)\<rparr>"
  from a have inv: "db_inv d" by (auto dest: reachable_inv)
  from a have sev: "br_severity res \<in> set bias_severities" by (simp add: bias_severities_def)
  from a have old: "old \<in> set (bias_flags d)" and ty: "br_bias_type res = b_bias_type old" by simp_all
  have up: "upsert_bias_flag now d i (b_knowledge_id old) res = Inr d'"
    unfolding d'_def new_def using inv old ty sev by (rule upsert_existing)
  have len: "length (bias_flags d') = length (bias_flags d)"
    by (simp add: d'_def replace_row_def)
  from inv have kd: "distinct (map b_id (bias_flags d))" and bu: "distinct (map bias_key (bias_flags d))"
    by (simp_all add: db_inv_def keys_distinct_def bias_unique_def)
  have "bias_key new = bias_key old" by (simp add: new_def bias_key_def)
  with key_not_in_others [OF bu old, of b_id]
  have "bias_key new \<notin> set (map bias_key (others b_id (b_id old) (bias_flags d)))" by simp
  with kd bu have "distinct (map bias_key (bias_flags d'))"
    by (simp add: d'_def distinct_key_replace_row new_def)
  moreover from old have "new \<in> set (bias_flags d')"
    by (simp add: d'_def replace_row_mem)
  ultimately have "filter (\<lambda>b. bias_key b = bias_key new) (bias_flags d') = [new]"
    by (rule filter_key_singleton)
  then have "filter (\<lambda>b. b_knowledge_id b = b_knowledge_id old \<and> b_bias_type b = b_bias_type old)
                (bias_flags d') = [new]"
    by (simp add: bias_key_def new_def)
  with up len show "\<exists>d'. upsert_bias_flag now d i (b_knowledge_id old) res = Inr d'
           \<and> length (bias_flags d') = length (bias_flags d)
           \<and> filter (\<lambda>b. b_knowledge_id b = b_knowledge_id old \<and> b_bias_type b = b_bias_type old)
                (bias_flags d')
              = [old\<lparr>b_bias_severity := br_severity res, b_bias_notes := br_notes res\<rparr>]"
    unfolding new_def by blast
qed


theorem C4_bias_flag_unique_witness:
  "reachable demo_store
   \<and> distinct (map (\<lambda>b. (b_knowledge_id b, b_bias_type b)) (bias_flags demo_store))
   \<and> hd (bias_flags demo_store) \<in> set (bias_flags demo_store)
   \<and> b_bias_severity (hd (bias_flags demo_store)) = ''low''
   \<and> (\<exists>d'. upsert_bias_flag ''t7'' demo_store 2 1
              \<lparr>br_bias_type = ''sponsored'', br_severity = ''high'', br_brand_names = None,
               br_notes = ''a paid segment''\<rparr> = Inr d'
          \<and> length (bias_flags d') = 1
          \<and> filter (\<lambda>b. b_knowledge_id b = 1 \<and> b_bias_type b = ''sponsored'') (bias_flags d')
             = [(hd (bias_flags demo_store))
                  \<lparr>b_bias_severity := ''high'', b_bias_notes := ''a paid segment''\<rparr>])"
proof -
  let ?old = "hd (bias_flags demo_store)"
  let ?res = "\<lparr>br_bias_type = ''sponsored'', br_severity = ''high'', br_brand_names = None,
               br_notes = ''a paid segment''\<rparr>"
  have mem: "?old \<in> set (bias_flags demo_store)" and sev: "b_bias_severity ?old = ''low''"
    and k: "b_knowledge_id ?old = 1" and ty: "b_bias_type ?old = ''sponsored''"
    and len: "length (bias_flags demo_store) = 1"
    by (simp_all add: demo_store_value)
  note C = C4_bias_flag_unique [where d = demo_store and old = ?old and res = ?res
      and now = "''t7''" and i = 2]
  from C reachable_demo
  have 1: "distinct (map (\<lambda>b. (b_knowledge_id b, b_bias_type b)) (bias_flags demo_store))"
    by blast
  from C reachable_demo mem ty
  have "\<exists>d'. upsert_bias_flag ''t7'' demo_store 2 (b_knowledge_id ?old) ?res = Inr d'
           \<and> length (bias_flags d') = length (bias_flags demo_store)
           \<and> filter (\<lambda>b. b_knowledge_id b = b_knowledge_id ?old \<and> b_bias_type b = b_bias_type ?old)
                (bias_flags d')
              = [?old\<lparr>b_bias_severity := br_severity ?res, b_bias_notes := br_notes ?res\<rparr>]"
    by simp
  then have 2: "\<exists>d'. upsert_bias_flag ''t7'' demo_store 2 1 ?res = Inr d'
          \<and> length (bias_flags d') = 1
          \<and> filter (\<lambda>b. b_knowledge_id b = 1 \<and> b_bias_type b = ''sponsored'') (bias_flags d')
             = [?old\<lparr>b_bias_severity := ''high'', b_bias_notes := ''a paid segment''\<rparr>]"
    by (simp add: k ty len)
  from reachable_demo 1 mem sev 2 show ?thesis by blast
qed


section \<open>Uniqueness violations\<close>

lemma failed_write_surfaced:
  assumes "exec_stmt s d = Inl e"
  shows "execute d s = (Some e, d)
    \<and> (\<forall>n. with_retry n (attempt_write s) d = (Some (DataIntegrityViolation e), d, 1))"
proof -
  from assms have ex: "execute d s = (Some e, d)" by (simp add: execute_def)
  then have aw: "attempt_write s d = Inl (DataIntegrityViolation e)"
    by (simp add: attempt_write_def)
  have "with_retry n (attempt_write s) d = (Some (DataIntegrityViolation e), d, 1)" for n
    by (subst with_retry.simps) (simp add: aw retried_def split: nat.splits)
  with ex show ?thesis by simp
qed

lemma unique_columns_of_row:
  "video_row now i vv = Some vr \<Longrightarrow> vv_video_id vv = Some (v_video_id vr)"
  "transcript_row now i tv = Some tr \<Longrightarrow> tv_video_id tv = Some (t_video_id tr)"
  "bias_flag_row now i bv = Some br \<Longrightarrow>
     bv_knowledge_id bv = Some (b_knowledge_id br) \<and> bv_bias_type bv = Some (b_bias_type br)"
  by (auto simp: video_row_def transcript_row_def bias_flag_row_def split: Option.bind_splits)

lemma insert_video_duplicate:
  assumes "r \<in> set (videos d)" "vv_video_id v = Some (v_video_id r)"
  shows "\<exists>e. insert_video now d i v = Inl e"
proof (cases "video_row now i v")
  case None
  then show ?thesis by (simp add: insert_video_def)
next
  case (Some r')
  with assms have "v_video_id r' \<in> set (map v_video_id (videos d))"
    by (auto dest!: unique_columns_of_row)
  with Some show ?thesis by (simp add: insert_video_def)
qed

lemma insert_transcript_duplicate:
  assumes "r \<in> set (transcripts d)" "tv_video_id v = Some (t_video_id r)"
  shows "\<exists>e. insert_transcript now d i v = Inl e"
proof (cases "transcript_row now i v")
  case None
  then show ?thesis by (simp add: insert_transcript_def)
next
  case (Some r')
  with assms have "t_video_id r' \<in> set (map t_video_id (transcripts d))"
    by (auto dest!: unique_columns_of_row)
  with Some show ?thesis by (simp add: insert_transcript_def)
qed

lemma insert_bias_flag_duplicate:
  assumes "r \<in> set (bias_flags d)" "bv_knowledge_id v = Some (b_knowledge_id r)"
    "bv_bias_type v = Some (b_bias_type r)"
  shows "\<exists>e. insert_bias_flag now d i v = Inl e"
proof (cases "bias_flag_row now i v")
  case None
  then show ?thesis by (simp add: insert_bias_flag_def)
next
  case (Some r')
  with assms have "bias_key r' = bias_key r"
    by (auto simp: bias_key_def dest!: unique_columns_of_row)
  with assms(1) have "bias_key r' \<in> set (map bias_key (bias_flags d))" by force
  with Some show ?thesis by (simp add: insert_bias_flag_def)
qed

lemma update_video_duplicate:
  assumes "old \<in> set (videos d)" "r \<in> set (videos d)" "v_id r \<noteq> v_id old"
    "v_video_id new = v_video_id r"
  shows "\<exists>e. update_video d (v_id old) new = Inl e"
proof -
  from assms(1) have "find (\<lambda>x. v_id x = v_id old) (videos d) \<noteq> None"
    by (rule find_in_set) simp
  moreover from assms(2-4)
  have "v_video_id (new\<lparr>v_id := v_id old\<rparr>)
      \<in> set (map v_video_id (others v_id (v_id old) (videos d)))"
    by (force simp: others_def)
  ultimately show ?thesis
    by (auto simp: update_video_def Let_def)
qed

lemma update_transcript_duplicate:
  assumes "old \<in> set (transcripts d)" "r \<in> set (transcripts d)" "t_id r \<noteq> t_id old"
    "t_video_id new = t_video_id r"
  shows "\<exists>e. update_transcript d (t_id old) new = Inl e"
proof -
  from assms(1) have "find (\<lambda>x. t_id x = t_id old) (transcripts d) \<noteq> None"
    by (rule find_in_set) simp
  moreover from assms(2-4)
  have "t_video_id (new\<lparr>t_id := t_id old\<rparr>)
      \<in> set (map t_video_id (others t_id (t_id old) (transcripts d)))"
    by (force simp: others_def)
  ultimately show ?thesis
    by (auto simp: update_transcript_def Let_def)
qed

lemma update_bias_flag_duplicate:
  assumes "old \<in> set (bias_flags d)" "r \<in> set (bias_flags d)" "b_id r \<noteq> b_id old"
    "b_knowledge_id new = b_knowledge_id r" "b_bias_type new = b_bias_type r"
  shows "\<exists>e. update_bias_flag d (b_id old) new = Inl e"
proof -
  from assms(1) have "find (\<lambda>x. b_id x = b_id old) (bias_flags d) \<noteq> None"
    by (rule find_in_set) simp
  moreover from assms(4,5) have "bias_key (new\<lparr>b_id := b_id old\<rparr>) = bias_key r"
    by (simp add: bias_key_def)
  with assms(2,3)
  have "bias_key (new\<lparr>b_id := b_id old\<rparr>)
      \<in> set (map bias_key (others b_id (b_id old) (bias_flags d)))"
    by (force simp: others_def)
  ultimately show ?thesis
    by (auto simp: update_bias_flag_def Let_def)
qed

lemma run_append:
  "run (ss @ ts) = foldl (\<lambda>d s. snd (execute d s)) (run ss) ts"
  by (simp add: run_def)

lemma demo_store2_tables:
  "videos demo_store2 =
     [\<lparr>v_id = 1, v_video_id = ''vid-001'', v_channel_id = 1, v_title = ''Calling elk'',
       v_description = None, v_published_at = None, v_duration_seconds = None,
       v_view_count = None, v_like_count = None, v_thumbnail_url = None,
       v_ingestion_status = ''pending'', v_failure_reason = None,
       v_created_at = ''t1'', v_updated_at = ''t1''\<rparr>,
      \<lparr>v_id = 2, v_video_id = ''vid-002'', v_channel_id = 1, v_title = ''Calling elk'',
       v_description = None, v_published_at = None, v_duration_seconds = None,
       v_view_count = None, v_like_count = None, v_thumbnail_url = None,
       v_ingestion_status = ''pending'', v_failure_reason = None,
       v_created_at = ''t7'', v_updated_at = ''t7''\<rparr>]"
  "transcripts demo_store2 =
     [\<lparr>t_id = 1, t_video_id = 1, t_language_code = ''en'', t_is_generated = False,
       t_full_text = ''bugle at dawn'', t_snippet_data = ''[]'', t_word_count = 3,
       t_created_at = ''t2''\<rparr>,
      \<lparr>t_id = 2, t_video_id = 2, t_language_code = ''en'', t_is_generated = False,
       t_full_text = ''bugle at dawn'', t_snippet_data = ''[]'', t_word_count = 3,
       t_created_at = ''t8''\<rparr>]"
  "bias_flags demo_store2 =
     [\<lparr>b_id = 1, b_knowledge_id = 1, b_bias_type = ''sponsored'', b_bias_severity = ''low'',
       b_brand_names = None, b_bias_notes = ''names a sponsor'',
       b_detected_by = ''bias_agent'', b_created_at = ''t5''\<rparr>,
      \<lparr>b_id = 2, b_knowledge_id = 1, b_bias_type = ''affiliate'', b_bias_severity = ''low'',
       b_brand_names = None, b_bias_notes = ''names a sponsor'',
       b_detected_by = ''bias_agent'', b_created_at = ''t9''\<rparr>]"
  unfolding demo_store2_def run_append demo_store_def [symmetric]
  by (simp_all add: demo_store_value demo_more_stmts_def demo_video_def demo_transcript_def
      demo_flag_def execute_def insert_defs row_defs check_defs trigger_defs fts_insert_def
      bias_key_def video_doc_def)

text \<open>
  C7. A write that would give a second video the video_id of a stored video, a second
  transcript to a video that has one, or a second bias flag the (knowledge_id, bias_type)
  of a stored flag fails, whether it is an insert of a new row or an update of another
  row: the caller gets the error, the store is unchanged, and under any retry budget the
  write is attempted once and the failure is surfaced as a data integrity violation. The
  same holds of every statement that a \<open>UNIQUE\<close> constraint aborts.
\<close>

theorem C7_uniqueness_violation_atomic:
  "(r \<in> set (videos d) \<and> vv_video_id v = Some (v_video_id r) \<longrightarrow>
      (\<exists>e. execute d (InsertVideo now i v) = (Some e, d)
         \<and> (\<forall>n. with_retry n (attempt_write (InsertVideo now i v)) d
                 = (Some (DataIntegrityViolation e), d, 1))))
   \<and> (t \<in> set (transcripts d) \<and> tv_video_id tv = Some (t_video_id t) \<longrightarrow>
      (\<exists>e. execute d (InsertTranscript now i tv) = (Some e, d)
         \<and> (\<forall>n. with_retry n (attempt_write (InsertTranscript now i tv)) d
                 = (Some (DataIntegrityViolation e), d, 1))))
   \<and> (b \<in> set (bias_flags d) \<and> bv_knowledge_id bv = Some (b_knowledge_id b)
        \<and> bv_bias_type bv = Some (b_bias_type b) \<longrightarrow>
      (\<exists>e. execute d (InsertBiasFlag now i bv) = (Some e, d)
         \<and> (\<forall>n. with_retry n (attempt_write (InsertBiasFlag now i bv)) d
                 = (Some (DataIntegrityViolation e), d, 1))))
   \<and> (vo \<in> set (videos d) \<and> vq \<in> set (videos d) \<and> v_id vq \<noteq> v_id vo
        \<and> v_video_id vn = v_video_id vq \<longrightarrow>
      (\<exists>e. execute d (UpdateVideo (v_id vo) vn) = (Some e, d)
         \<and> (\<forall>n. with_retry n (attempt_write (UpdateVideo (v_id vo) vn)) d
                 = (Some (DataIntegrityViolation e), d, 1))))
   \<and> (tp \<in> set (transcripts d) \<and> tq \<in> set (transcripts d) \<and> t_id tq \<noteq> t_id tp
        \<and> t_video_id tn = t_video_id tq \<longrightarrow>
      (\<exists>e. execute d (UpdateTranscript (t_id tp) tn) = (Some e, d)
         \<and> (\<forall>n. with_retry n (attempt_write (UpdateTranscript (t_id tp) tn)) d
                 = (Some (DataIntegrityViolation e), d, 1))))
   \<and> (bo \<in> set (bias_flags d) \<and> bq \<in> set (bias_flags d) \<and> b_id bq \<noteq> b_id bo
        \<and> b_knowledge_id bn = b_knowledge_id bq \<and> b_bias_type bn = b_bias_type bq \<longrightarrow>
      (\<exists>e. execute d (UpdateBiasFlag (b_id bo) bn) = (Some e, d)
         \<and> (\<forall>n. with_retry n (attempt_write (UpdateBiasFlag (b_id bo) bn)) d
                 = (Some (DataIntegrityViolation e), d, 1))))
   \<and> (exec_stmt s d = Inl UniqueViolation \<longrightarrow>
        execute d s = (Some UniqueViolation, d)
        \<and> (\<forall>n. with_retry n (attempt_write s) d
               = (Some (DataIntegrityViolation UniqueViolation), d, 1)))"
proof (intro conjI impI)
  assume "r \<in> set (videos d) \<and> vv_video_id v = Some (v_video_id r)"
  then obtain e where "exec_stmt (InsertVideo now i v) d = Inl e"
    using insert_video_duplicate [of r d v now i] by auto
  then show "\<exists>e. execute d (InsertVideo now i v) = (Some e, d)
         \<and> (\<forall>n. with_retry n (attempt_write (InsertVideo now i v)) d
                 = (Some (DataIntegrityViolation e), d, 1))"
    by (blast dest: failed_write_surfaced)
next
  assume "t \<in> set (transcripts d) \<and> tv_video_id tv = Some (t_video_id t)"
  then obtain e where "exec_stmt (InsertTranscript now i tv) d = Inl e"
    using insert_transcript_duplicate [of t d tv now i] by auto
  then show "\<exists>e. execute d (InsertTranscript now i tv) = (Some e, d)
         \<and> (\<forall>n. with_retry n (attempt_write (InsertTranscript now i tv)) d
                 = (Some (DataIntegrityViolation e), d, 1))"
    by (blast dest: failed_write_surfaced)
next
  assume "b \<in> set (bias_flags d) \<and> bv_knowledge_id bv = Some (b_knowledge_id b)
        \<and> bv_bias_type bv = Some (b_bias_type b)"
  then obtain e where "exec_stmt (InsertBiasFlag now i bv) d = Inl e"
    using insert_bias_flag_duplicate [of b d bv now i] by auto
  then show "\<exists>e. execute d (InsertBiasFlag now i bv) = (Some e, d)
         \<and> (\<forall>n. with_retry n (attempt_write (InsertBiasFlag now i bv)) d
                 = (Some (DataIntegrityViolation e), d, 1))"
    by (blast dest: failed_write_surfaced)
next
  assume "vo \<in> set (videos d) \<and> vq \<in> set (videos d) \<and> v_id vq \<noteq> v_id vo
        \<and> v_video_id vn = v_video_id vq"
  then obtain e where "exec_stmt (UpdateVideo (v_id vo) vn) d = Inl e"
    using update_video_duplicate [of vo d vq vn] by auto
  then show "\<exists>e. execute d (UpdateVideo (v_id vo) vn) = (Some e, d)
         \<and> (\<forall>n. with_retry n (attempt_write (UpdateVideo (v_id vo) vn)) d
                 = (Some (DataIntegrityViolation e), d, 1))"
    by (blast dest: failed_write_surfaced)
next
  assume "tp \<in> set (transcripts d) \<and> tq \<in> set (transcripts d) \<and> t_id tq \<noteq> t_id tp
        \<and> t_video_id tn = t_video_id tq"
  then obtain e where "exec_stmt (UpdateTranscript (t_id tp) tn) d = Inl e"
    using update_transcript_duplicate [of tp d tq tn] by auto
  then show "\<exists>e. execute d (UpdateTranscript (t_id tp) tn) = (Some e, d)
         \<and> (\<forall>n. with_retry n (attempt_write (UpdateTranscript (t_id tp) tn)) d
                 = (Some (DataIntegrityViolation e), d, 1))"
    by (blast dest: failed_write_surfaced)
next
  assume "bo \<in> set (bias_flags d) \<and> bq \<in> set (bias_flags d) \<and> b_id bq \<noteq> b_id bo
        \<and> b_knowledge_id bn = b_knowledge_id bq \<and> b_bias_type bn = b_bias_type bq"
  then obtain e where "exec_stmt (UpdateBiasFlag (b_id bo) bn) d = Inl e"
    using update_bias_flag_duplicate [of bo d bq bn] by auto
  then show "\<exists>e. execute d (UpdateBiasFlag (b_id bo) bn) = (Some e, d)
         \<and> (\<forall>n. with_retry n (attempt_write (UpdateBiasFlag (b_id bo) bn)) d
                 = (Some (DataIntegrityViolation e), d, 1))"
    by (blast dest: failed_write_surfaced)
next
  assume a: "exec_stmt s d = Inl UniqueViolation"
  from failed_write_surfaced [OF a]
  show "execute d s = (Some UniqueViolation, d)"
    and "\<forall>n. with_retry n (attempt_write s) d
               = (Some (DataIntegrityViolation UniqueViolation), d, 1)"
    by simp_all
qed


theorem C7_uniqueness_violation_atomic_witness:
  "hd (videos demo_store) \<in> set (videos demo_store)
   \<and> execute demo_store (InsertVideo ''t7'' 2 demo_video) = (Some UniqueViolation, demo_store)
   \<and> with_retry 3 (attempt_write (InsertVideo ''t7'' 2 demo_video)) demo_store
       = (Some (DataIntegrityViolation UniqueViolation), demo_store, 1)
   \<and> hd (transcripts demo_store) \<in> set (transcripts demo_store)
   \<and> execute demo_store (InsertTranscript ''t7'' 2 demo_transcript)
       = (Some UniqueViolation, demo_store)
   \<and> with_retry 3 (attempt_write (InsertTranscript ''t7'' 2 demo_transcript)) demo_store
       = (Some (DataIntegrityViolation UniqueViolation), demo_store, 1)
   \<and> hd (bias_flags demo_store) \<in> set (bias_flags demo_store)
   \<and> execute demo_store (InsertBiasFlag ''t7'' 2 demo_flag) = (Some UniqueViolation, demo_store)
   \<and> with_retry 3 (attempt_write (InsertBiasFlag ''t7'' 2 demo_flag)) demo_store
       = (Some (DataIntegrityViolation UniqueViolation), demo_store, 1)
   \<and> map v_id (videos demo_store2) = [1, 2]
   \<and> execute demo_store2
        (UpdateVideo 2 ((last (videos demo_store2))\<lparr>v_video_id := ''vid-001''\<rparr>))
       = (Some UniqueViolation, demo_store2)
   \<and> with_retry 3
        (attempt_write (UpdateVideo 2 ((last (videos demo_store2))\<lparr>v_video_id := ''vid-001''\<rparr>)))
        demo_store2
       = (Some (DataIntegrityViolation UniqueViolation), demo_store2, 1)
   \<and> map t_id (transcripts demo_store2) = [1, 2]
   \<and> execute demo_store2
        (UpdateTranscript 2 ((last (transcripts demo_store2))\<lparr>t_video_id := 1\<rparr>))
       = (Some UniqueViolation, demo_store2)
   \<and> with_retry 3
        (attempt_write (UpdateTranscript 2 ((last (transcripts demo_store2))\<lparr>t_video_id := 1\<rparr>)))
        demo_store2
       = (Some (DataIntegrityViolation UniqueViolation), demo_store2, 1)
   \<and> map b_id (bias_flags demo_store2) = [1, 2]
   \<and> execute demo_store2
        (UpdateBiasFlag 2 ((last (bias_flags demo_store2))\<lparr>b_bias_type := ''sponsored''\<rparr>))
       = (Some UniqueViolation, demo_store2)
   \<and> with_retry 3
        (attempt_write
          (UpdateBiasFlag 2 ((last (bias_flags demo_store2))\<lparr>b_bias_type := ''sponsored''\<rparr>)))
        demo_store2
       = (Some (DataIntegrityViolation UniqueViolation), demo_store2, 1)"
proof -
  let ?vn = "(last (videos demo_store2))\<lparr>v_video_id := ''vid-001''\<rparr>"
  let ?tn = "(last (transcripts demo_store2))\<lparr>t_video_id := 1\<rparr>"
  let ?bn = "(last (bias_flags demo_store2))\<lparr>b_bias_type := ''sponsored''\<rparr>"
  have mem: "hd (videos demo_store) \<in> set (videos demo_store)"
    "hd (transcripts demo_store) \<in> set (transcripts demo_store)"
    "hd (bias_flags demo_store) \<in> set (bias_flags demo_store)"
    and cols: "vv_video_id demo_video = Some (v_video_id (hd (videos demo_store)))"
    "tv_video_id demo_transcript = Some (t_video_id (hd (transcripts demo_store)))"
    "bv_knowledge_id demo_flag = Some (b_knowledge_id (hd (bias_flags demo_store)))"
    "bv_bias_type demo_flag = Some (b_bias_type (hd (bias_flags demo_store)))"
    by (simp_all add: demo_store_value demo_video_def demo_transcript_def demo_flag_def)
  have ev: "exec_stmt (InsertVideo ''t7'' 2 demo_video) demo_store = Inl UniqueViolation"
    by (simp add: demo_store_value demo_video_def insert_video_def video_row_def check_defs)
  have et: "exec_stmt (InsertTranscript ''t7'' 2 demo_transcript) demo_store = Inl UniqueViolation"
    by (simp add: demo_store_value demo_transcript_def insert_transcript_def transcript_row_def)
  have eb: "exec_stmt (InsertBiasFlag ''t7'' 2 demo_flag) demo_store = Inl UniqueViolation"
    by (simp add: demo_store_value demo_flag_def insert_bias_flag_def bias_flag_row_def
        check_defs bias_key_def)
  note C = C7_uniqueness_violation_atomic [where d = demo_store and now = "''t7''" and i = 2
      and r = "hd (videos demo_store)" and v = demo_video
      and t = "hd (transcripts demo_store)" and tv = demo_transcript
      and b = "hd (bias_flags demo_store)" and bv = demo_flag]
  from C mem cols ev et eb
  have ins: "execute demo_store (InsertVideo ''t7'' 2 demo_video) = (Some UniqueViolation, demo_store)
   \<and> with_retry 3 (attempt_write (InsertVideo ''t7'' 2 demo_video)) demo_store
       = (Some (DataIntegrityViolation UniqueViolation), demo_store, 1)
   \<and> execute demo_store (InsertTranscript ''t7'' 2 demo_transcript)
       = (Some UniqueViolation, demo_store)
   \<and> with_retry 3 (attempt_write (InsertTranscript ''t7'' 2 demo_transcript)) demo_store
       = (Some (DataIntegrityViolation UniqueViolation), demo_store, 1)
   \<and> execute demo_store (InsertBiasFlag ''t7'' 2 demo_flag) = (Some UniqueViolation, demo_store)
   \<and> with_retry 3 (attempt_write (InsertBiasFlag ''t7'' 2 demo_flag)) demo_store
       = (Some (DataIntegrityViolation UniqueViolation), demo_store, 1)"
    by (simp add: execute_def)
  have ids: "map v_id (videos demo_store2) = [1, 2]" "map t_id (transcripts demo_store2) = [1, 2]"
    "map b_id (bias_flags demo_store2) = [1, 2]"
    by (simp_all add: demo_store2_tables)
  have mem2: "last (videos demo_store2) \<in> set (videos demo_store2)"
    "hd (videos demo_store2) \<in> set (videos demo_store2)"
    "last (transcripts demo_store2) \<in> set (transcripts demo_store2)"
    "hd (transcripts demo_store2) \<in> set (transcripts demo_store2)"
    "last (bias_flags demo_store2) \<in> set (bias_flags demo_store2)"
    "hd (bias_flags demo_store2) \<in> set (bias_flags demo_store2)"
    and keys: "v_id (last (videos demo_store2)) = 2" "v_id (hd (videos demo_store2)) = 1"
    "v_video_id ?vn = v_video_id (hd (videos demo_store2))"
    "t_id (last (transcripts demo_store2)) = 2" "t_id (hd (transcripts demo_store2)) = 1"
    "t_video_id ?tn = t_video_id (hd (transcripts demo_store2))"
    "b_id (last (bias_flags demo_store2)) = 2" "b_id (hd (bias_flags demo_store2)) = 1"
    "b_knowledge_id ?bn = b_knowledge_id (hd (bias_flags demo_store2))"
    "b_bias_type ?bn = b_bias_type (hd (bias_flags demo_store2))"
    by (simp_all add: demo_store2_tables)
  have uv: "exec_stmt (UpdateVideo 2 ?vn) demo_store2 = Inl UniqueViolation"
    by (simp add: update_video_def demo_store2_tables Let_def others_def check_defs)
  have ut: "exec_stmt (UpdateTranscript 2 ?tn) demo_store2 = Inl UniqueViolation"
    by (simp add: update_transcript_def demo_store2_tables Let_def others_def)
  have ub: "exec_stmt (UpdateBiasFlag 2 ?bn) demo_store2 = Inl UniqueViolation"
    by (simp add: update_bias_flag_def demo_store2_tables Let_def others_def check_defs
        bias_key_def)
  note U = C7_uniqueness_violation_atomic [where d = demo_store2
      and vo = "last (videos demo_store2)" and vq = "hd (videos demo_store2)" and vn = ?vn
      and tp = "last (transcripts demo_store2)" and tq = "hd (transcripts demo_store2)" and tn = ?tn
      and bo = "last (bias_flags demo_store2)" and bq = "hd (bias_flags demo_store2)" and bn = ?bn]
  from U mem2 keys uv ut ub
  have upd: "execute demo_store2 (UpdateVideo 2 ?vn) = (Some UniqueViolation, demo_store2)
   \<and> with_retry 3 (attempt_write (UpdateVideo 2 ?vn)) demo_store2
       = (Some (DataIntegrityViolation UniqueViolation), demo_store2, 1)
   \<and> execute demo_store2 (UpdateTranscript 2 ?tn) = (Some UniqueViolation, demo_store2)
   \<and> with_retry 3 (attempt_write (UpdateTranscript 2 ?tn)) demo_store2
       = (Some (DataIntegrityViolation UniqueViolation), demo_store2, 1)
   \<and> execute demo_store2 (UpdateBiasFlag 2 ?bn) = (Some UniqueViolation, demo_store2)
   \<and> with_retry 3 (attempt_write (UpdateBiasFlag 2 ?bn)) demo_store2
       = (Some (DataIntegrityViolation UniqueViolation), demo_store2, 1)"
    by (simp add: execute_def)
  from mem ins ids upd show ?thesis by simp
qed


section \<open>Cascades\<close>

lemma image_of_selected:
  "x \<in> set rows \<Longrightarrow> gid ` {r \<in> set rows. gid r = gid x} = {gid x}"
  by auto

text \<open>
  C3, as the schema has it. Deleting a video deletes its transcript, its knowledge entries,
  the bias flags of those entries and its processing log rows, and keeps every such row of
  the other videos. Deleting a knowledge entry deletes its bias flags and keeps the other
  flags and the processing log. No deletion of a video, a knowledge entry, a transcript or
  a channel deletes an optimization queue item.
\<close>

theorem C3_cascade_ownership:
  "(v \<in> set (videos d) \<longrightarrow>
      transcripts (delete_video d (v_id v)) = filter (\<lambda>t. t_video_id t \<noteq> v_id v) (transcripts d)
    \<and> knowledge_entries (delete_video d (v_id v))
        = filter (\<lambda>k. k_video_id k \<noteq> v_id v) (knowledge_entries d)
    \<and> bias_flags (delete_video d (v_id v))
        = filter (\<lambda>b. b_knowledge_id b
                      \<notin> set (map k_id (filter (\<lambda>k. k_video_id k = v_id v) (knowledge_entries d))))
            (bias_flags d)
    \<and> processing_log (delete_video d (v_id v))
        = filter (\<lambda>l. pl_video_id l \<noteq> v_id v) (processing_log d)
    \<and> optimization_queue (delete_video d (v_id v)) = optimization_queue d)
   \<and> (k \<in> set (knowledge_entries d) \<longrightarrow>
      bias_flags (delete_knowledge d (k_id k))
        = filter (\<lambda>b. b_knowledge_id b \<noteq> k_id k) (bias_flags d)
    \<and> processing_log (delete_knowledge d (k_id k)) = processing_log d
    \<and> optimization_queue (delete_knowledge d (k_id k)) = optimization_queue d)
   \<and> optimization_queue (delete_transcript d i) = optimization_queue d
   \<and> optimization_queue (delete_channel d i) = optimization_queue d"
proof (intro conjI impI)
  assume v: "v \<in> set (videos d)"
  then have sel: "v_id ` {r \<in> set (videos d). v_id r = v_id v} = {v_id v}"
    by (rule image_of_selected)
  show "transcripts (delete_video d (v_id v)) = filter (\<lambda>t. t_video_id t \<noteq> v_id v) (transcripts d)"
    unfolding delete_video_def delete_videos_where_eq sel by simp
  show "knowledge_entries (delete_video d (v_id v))
        = filter (\<lambda>k. k_video_id k \<noteq> v_id v) (knowledge_entries d)"
    unfolding delete_video_def delete_videos_where_eq sel by simp
  have "set (map k_id (filter (\<lambda>k. k_video_id k = v_id v) (knowledge_entries d)))
      = k_id ` {k \<in> set (knowledge_entries d). k_video_id k \<in> {v_id v}}"
    by simp
  then show "bias_flags (delete_video d (v_id v))
        = filter (\<lambda>b. b_knowledge_id b
                      \<notin> set (map k_id (filter (\<lambda>k. k_video_id k = v_id v) (knowledge_entries d))))
            (bias_flags d)"
    unfolding delete_video_def delete_videos_where_eq sel by (simp del: set_map set_filter)
  show "processing_log (delete_video d (v_id v))
        = filter (\<lambda>l. pl_video_id l \<noteq> v_id v) (processing_log d)"
    unfolding delete_video_def delete_videos_where_eq sel by simp
  show "optimization_queue (delete_video d (v_id v)) = optimization_queue d"
    by (simp add: delete_video_def delete_videos_where_eq)
next
  assume k: "k \<in> set (knowledge_entries d)"
  then have sel: "k_id ` {r \<in> set (knowledge_entries d). k_id r = k_id k} = {k_id k}"
    by (rule image_of_selected)
  show "bias_flags (delete_knowledge d (k_id k))
        = filter (\<lambda>b. b_knowledge_id b \<noteq> k_id k) (bias_flags d)"
    unfolding delete_knowledge_def delete_knowledge_where_eq sel by simp
  show "processing_log (delete_knowledge d (k_id k)) = processing_log d"
    by (simp add: delete_knowledge_def delete_knowledge_where_eq)
  show "optimization_queue (delete_knowledge d (k_id k)) = optimization_queue d"
    by (simp add: delete_knowledge_def delete_knowledge_where_eq)
next
  show "optimization_queue (delete_transcript d i) = optimization_queue d"
    by (simp add: delete_transcript_def delete_transcripts_where_eq)
  show "optimization_queue (delete_channel d i) = optimization_queue d"
    by (simp add: delete_channel_def delete_channels_where_def Let_def delete_videos_where_eq)
qed

lemma demo_fields:
  "map v_id (videos demo_store) = [1]"
  "map (\<lambda>t. (t_id t, t_video_id t)) (transcripts demo_store) = [(1, 1)]"
  "map (\<lambda>k. (k_id k, k_video_id k)) (knowledge_entries demo_store) = [(1, 1)]"
  "map (\<lambda>l. (pl_id l, pl_video_id l)) (processing_log demo_store) = [(1, 1)]"
  "map (\<lambda>b. (b_id b, b_knowledge_id b)) (bias_flags demo_store) = [(1, 1)]"
  "map q_id (optimization_queue demo_store) = [1]"
  by (simp_all add: demo_store_value)

lemma filter_by_column:
  "map (\<lambda>r. (gid r, col r)) rows = [(a, c)] \<Longrightarrow> filter (\<lambda>r. col r \<noteq> c) rows = []"
  "map (\<lambda>r. (gid r, col r)) rows = [(a, c)] \<Longrightarrow> filter (\<lambda>r. col r \<notin> {c}) rows = []"
  "map (\<lambda>r. (gid r, col r)) rows = [(a, c)] \<Longrightarrow> filter (\<lambda>r. col r = c) rows = rows"
  "map (\<lambda>r. (gid r, col r)) rows = [(a, c)] \<Longrightarrow> hd rows \<in> set rows \<and> gid (hd rows) = a \<and> col (hd rows) = c"
  by (cases rows; simp)+

theorem C3_cascade_ownership_witness:
  "hd (videos demo_store) \<in> set (videos demo_store)
   \<and> transcripts demo_store \<noteq> [] \<and> transcripts (delete_video demo_store 1) = []
   \<and> knowledge_entries demo_store \<noteq> [] \<and> knowledge_entries (delete_video demo_store 1) = []
   \<and> bias_flags (delete_video demo_store 1) = []
   \<and> processing_log (delete_video demo_store 1) = []
   \<and> optimization_queue demo_store \<noteq> []
   \<and> optimization_queue (delete_video demo_store 1) = optimization_queue demo_store
   \<and> hd (knowledge_entries demo_store) \<in> set (knowledge_entries demo_store)
   \<and> bias_flags demo_store \<noteq> [] \<and> bias_flags (delete_knowledge demo_store 1) = []
   \<and> processing_log (delete_knowledge demo_store 1) = processing_log demo_store
   \<and> optimization_queue (delete_knowledge demo_store 1) = optimization_queue demo_store
   \<and> optimization_queue (delete_transcript demo_store 1) = optimization_queue demo_store
   \<and> optimization_queue (delete_channel demo_store 1) = optimization_queue demo_store"
proof -
  have v: "hd (videos demo_store) \<in> set (videos demo_store)" "v_id (hd (videos demo_store)) = 1"
    using demo_fields(1) by (cases "videos demo_store"; simp)+
  have k: "hd (knowledge_entries demo_store) \<in> set (knowledge_entries demo_store)"
    "k_id (hd (knowledge_entries demo_store)) = 1"
    using filter_by_column(4) [OF demo_fields(3)] by simp_all
  have ne: "transcripts demo_store \<noteq> []" "knowledge_entries demo_store \<noteq> []"
    "optimization_queue demo_store \<noteq> []" "bias_flags demo_store \<noteq> []"
    using demo_fields by auto
  have kv: "filter (\<lambda>k. k_video_id k = 1) (knowledge_entries demo_store) = knowledge_entries demo_store"
    by (rule filter_by_column(3) [OF demo_fields(3)])
  have kids: "set (map k_id (knowledge_entries demo_store)) = {1}"
    using demo_fields(3) by (cases "knowledge_entries demo_store"; simp)
  note C = C3_cascade_ownership [where d = demo_store and v = "hd (videos demo_store)"
      and k = "hd (knowledge_entries demo_store)" and i = 1, unfolded v(2) k(2)]
  from C v(1) have "transcripts (delete_video demo_store 1) = []"
    by (simp add: filter_by_column(1) [OF demo_fields(2)])
  moreover from C v(1) have "knowledge_entries (delete_video demo_store 1) = []"
    by (simp add: filter_by_column(1) [OF demo_fields(3)])
  moreover from C v(1) have "bias_flags (delete_video demo_store 1) = []"
    by (simp only: kv kids) (simp add: filter_by_column(1) [OF demo_fields(5)])
  moreover from C v(1) have "processing_log (delete_video demo_store 1) = []"
    by (simp add: filter_by_column(1) [OF demo_fields(4)])
  moreover from C v(1)
  have "optimization_queue (delete_video demo_store 1) = optimization_queue demo_store"
    by simp
  moreover from C k(1) have "bias_flags (delete_knowledge demo_store 1) = []"
    by (simp add: filter_by_column(1) [OF demo_fields(5)])
  moreover from C k(1)
  have "processing_log (delete_knowledge demo_store 1) = processing_log demo_store"
    "optimization_queue (delete_knowledge demo_store 1) = optimization_queue demo_store"
    by simp_all
  moreover from C
  have "optimization_queue (delete_transcript demo_store 1) = optimization_queue demo_store"
    "optimization_queue (delete_channel demo_store 1) = optimization_queue demo_store"
    by simp_all
  ultimately show ?thesis using v(1) k(1) ne by simp
qed

lemma delete_video_log:
  "processing_log (delete_video d i)
     = filter (\<lambda>l. pl_video_id l \<notin> set (map v_id (filter (\<lambda>v. v_id v = i) (videos d))))
         (processing_log d)"
  by (simp add: delete_video_def delete_videos_where_eq)

text \<open>
  The processing log is not a weak reference: \<open>processing_log.video_id\<close> is declared
  \<open>ON DELETE CASCADE\<close>, so the log row of video 1 goes when video 1 is deleted.
\<close>

theorem C3_processing_log_counterexample:
  "hd (videos demo_store) \<in> set (videos demo_store)
   \<and> v_id (hd (videos demo_store)) = 1
   \<and> hd (processing_log demo_store) \<in> set (processing_log demo_store)
   \<and> pl_video_id (hd (processing_log demo_store)) = 1
   \<and> hd (processing_log demo_store) \<notin> set (processing_log (delete_video demo_store 1))
   \<and> processing_log (delete_video demo_store 1) \<noteq> processing_log demo_store"
proof -
  have v: "hd (videos demo_store) \<in> set (videos demo_store)" "v_id (hd (videos demo_store)) = 1"
    "filter (\<lambda>v. v_id v = 1) (videos demo_store) = videos demo_store"
    using demo_fields(1) by (cases "videos demo_store"; simp)+
  note l = filter_by_column(4) [OF demo_fields(4)]
  have "processing_log (delete_video demo_store 1)
      = filter (\<lambda>l. pl_video_id l \<notin> {1}) (processing_log demo_store)"
    unfolding delete_video_log v(3) by (simp add: demo_fields(1))
  then have "processing_log (delete_video demo_store 1) = []"
    by (simp only: filter_by_column(2) [OF demo_fields(4)])
  with v l show ?thesis by auto
qed

section \<open>Search after insert and delete\<close>

lemma fts_match_ids: "set (fts_match m idx q) \<subseteq> fst ` set idx"
  by (auto simp: fts_match_def)

lemma fts_match_last: "m q doc \<Longrightarrow> i \<in> set (fts_match m (fts_insert i doc idx) q)"
  by (simp add: fts_match_def fts_insert_def)

lemma synced_index_ids:
  assumes "mset idx = mset (map (\<lambda>r. (f r, g r)) rows)"
  shows "fst ` set idx = f ` set rows"
proof -
  from assms have "set idx = set (map (\<lambda>r. (f r, g r)) rows)" by (rule mset_eq_setD)
  then show ?thesis by (simp add: image_image)
qed

lemma delete_video_index:
  "videos (delete_video d i) = filter (\<lambda>v. v_id v \<noteq> i) (videos d)"
  "video_fts (delete_video d i)
     = foldl (\<lambda>idx old. fts_delete (v_id old) (video_doc old) idx) (video_fts d)
         (filter (\<lambda>v. v_id v = i) (videos d))"
  by (simp_all add: delete_video_def delete_videos_where_eq)

lemma delete_knowledge_index:
  "knowledge_entries (delete_knowledge d i) = filter (\<lambda>k. k_id k \<noteq> i) (knowledge_entries d)"
  "knowledge_fts (delete_knowledge d i)
     = foldl (\<lambda>idx old. fts_delete (k_id old) (knowledge_doc old) idx) (knowledge_fts d)
         (filter (\<lambda>k. k_id k = i) (knowledge_entries d))"
  by (simp_all add: delete_knowledge_def delete_knowledge_where_eq)

lemma delete_transcript_index:
  "transcripts (delete_transcript d i) = filter (\<lambda>t. t_id t \<noteq> i) (transcripts d)"
  "transcript_fts (delete_transcript d i)
     = foldl (\<lambda>idx old. fts_delete (t_id old) (t_full_text old) idx) (transcript_fts d)
         (filter (\<lambda>t. t_id t = i) (transcripts d))"
  by (simp_all add: delete_transcript_def delete_transcripts_where_eq)

lemma knowledge_round_trip:
  assumes syn: "knowledge_synced d" and ins: "insert_knowledge now d i v = Inr d'"
    and row: "knowledge_row now i v = Some r" and m: "m q (knowledge_doc r)"
  shows "i \<in> set (search_knowledge m d' q)"
    and "i \<notin> set (fts_match m (knowledge_fts (delete_knowledge d' i)) q)"
    and "i \<notin> set (search_knowledge m (delete_knowledge d' i) q)"
proof -
  from row have id: "k_id r = i" by (rule row_ids)
  from ins row have d': "d' = knowledge_ai r (d\<lparr>knowledge_entries := knowledge_entries d @ [r]\<rparr>)"
    by (simp add: insert_knowledge_def split: if_splits)
  from m show "i \<in> set (search_knowledge m d' q)"
    by (simp add: d' search_knowledge_def knowledge_ai_def id fts_match_last)
  from syn have "knowledge_synced d'"
    by (simp add: d' knowledge_synced_def knowledge_ai_def fts_insert_def)
  then have "mset (knowledge_fts (delete_knowledge d' i))
      = mset (map (\<lambda>r. (k_id r, knowledge_doc r)) (knowledge_entries (delete_knowledge d' i)))"
    unfolding delete_knowledge_index knowledge_synced_def by (rule synced_after_delete)
  then have "fst ` set (knowledge_fts (delete_knowledge d' i))
      = k_id ` set (knowledge_entries (delete_knowledge d' i))"
    by (rule synced_index_ids)
  also have "i \<notin> k_id ` set (knowledge_entries (delete_knowledge d' i))"
    by (auto simp: delete_knowledge_index)
  finally have "i \<notin> fst ` set (knowledge_fts (delete_knowledge d' i))" .
  with fts_match_ids show 2: "i \<notin> set (fts_match m (knowledge_fts (delete_knowledge d' i)) q)"
    by blast
  then show "i \<notin> set (search_knowledge m (delete_knowledge d' i) q)"
    by (simp add: search_knowledge_def)
qed

lemma transcript_round_trip:
  assumes syn: "transcript_synced d" and ins: "insert_transcript now d i v = Inr d'"
    and row: "transcript_row now i v = Some r" and m: "m q (t_full_text r)"
  shows "i \<in> set (search_transcripts m d' q)"
    and "i \<notin> set (fts_match m (transcript_fts (delete_transcript d' i)) q)"
    and "i \<notin> set (search_transcripts m (delete_transcript d' i) q)"
proof -
  from row have id: "t_id r = i" by (rule row_ids)
  from ins row have d': "d' = transcript_ai r (d\<lparr>transcripts := transcripts d @ [r]\<rparr>)"
    by (simp add: insert_transcript_def split: if_splits)
  from m show "i \<in> set (search_transcripts m d' q)"
    by (simp add: d' search_transcripts_def transcript_ai_def id fts_match_last)
  from syn have "transcript_synced d'"
    by (simp add: d' transcript_synced_def transcript_ai_def fts_insert_def)
  then have "mset (transcript_fts (delete_transcript d' i))
      = mset (map (\<lambda>r. (t_id r, t_full_text r)) (transcripts (delete_transcript d' i)))"
    unfolding delete_transcript_index transcript_synced_def by (rule synced_after_delete)
  then have "fst ` set (transcript_fts (delete_transcript d' i))
      = t_id ` set (transcripts (delete_transcript d' i))"
    by (rule synced_index_ids)
  also have "i \<notin> t_id ` set (transcripts (delete_transcript d' i))"
    by (auto simp: delete_transcript_index)
  finally have "i \<notin> fst ` set (transcript_fts (delete_transcript d' i))" .
  with fts_match_ids show 2: "i \<notin> set (fts_match m (transcript_fts (delete_transcript d' i)) q)"
    by blast
  then show "i \<notin> set (search_transcripts m (delete_transcript d' i) q)"
    by (simp add: search_transcripts_def)
qed

lemma video_round_trip:
  assumes syn: "video_synced d" and ins: "insert_video now d i v = Inr d'"
    and row: "video_row now i v = Some r" and m: "m q (video_doc r)"
  shows "i \<in> set (search_videos m d' q)"
    and "i \<notin> set (fts_match m (video_fts (delete_video d' i)) q)"
    and "i \<notin> set (search_videos m (delete_video d' i) q)"
proof -
  from row have id: "v_id r = i" by (rule row_ids)
  from ins row have d': "d' = video_ai r (d\<lparr>videos := videos d @ [r]\<rparr>)"
    by (simp add: insert_video_def split: if_splits)
  from m show "i \<in> set (search_videos m d' q)"
    by (simp add: d' search_videos_def video_ai_def id fts_match_last)
  from syn have "video_synced d'"
    by (simp add: d' video_synced_def video_ai_def fts_insert_def)
  then have "mset (video_fts (delete_video d' i))
      = mset (map (\<lambda>r. (v_id r, video_doc r)) (videos (delete_video d' i)))"
    unfolding delete_video_index video_synced_def by (rule synced_after_delete)
  then have "fst ` set (video_fts (delete_video d' i)) = v_id ` set (videos (delete_video d' i))"
    by (rule synced_index_ids)
  also have "i \<notin> v_id ` set (videos (delete_video d' i))"
    by (auto simp: delete_video_index)
  finally have "i \<notin> fst ` set (video_fts (delete_video d' i))" .
  with fts_match_ids show 2: "i \<notin> set (fts_match m (video_fts (delete_video d' i)) q)"
    by blast
  then show "i \<notin> set (search_videos m (delete_video d' i) q)"
    by (simp add: search_videos_def)
qed

text \<open>
  C2. For a knowledge entry, a transcript and a video alike: when the index is in sync and
  the row with id \<open>i\<close> is inserted, a search for any text that matches the row's indexed
  columns (a text unique to the row in particular) returns \<open>i\<close>; once the row is deleted
  again, the index has no match under \<open>i\<close> for that text and the search does not
  return \<open>i\<close>.
\<close>

theorem C2_search_round_trip:
  "(knowledge_synced dk \<and> insert_knowledge now dk i kv = Inr dk'
      \<and> knowledge_row now i kv = Some kr \<and> mk q (knowledge_doc kr) \<longrightarrow>
        i \<in> set (search_knowledge mk dk' q)
      \<and> i \<notin> set (fts_match mk (knowledge_fts (delete_knowledge dk' i)) q)
      \<and> i \<notin> set (search_knowledge mk (delete_knowledge dk' i) q))
   \<and> (transcript_synced dt \<and> insert_transcript now dt i tv = Inr dt'
      \<and> transcript_row now i tv = Some tr \<and> mt q (t_full_text tr) \<longrightarrow>
        i \<in> set (search_transcripts mt dt' q)
      \<and> i \<notin> set (fts_match mt (transcript_fts (delete_transcript dt' i)) q)
      \<and> i \<notin> set (search_transcripts mt (delete_transcript dt' i) q))
   \<and> (video_synced dv \<and> insert_video now dv i vv = Inr dv'
      \<and> video_row now i vv = Some vr \<and> mv q (video_doc vr) \<longrightarrow>
        i \<in> set (search_videos mv dv' q)
      \<and> i \<notin> set (fts_match mv (video_fts (delete_video dv' i)) q)
      \<and> i \<notin> set (search_videos mv (delete_video dv' i) q))"
proof (intro conjI impI)
  assume a: "knowledge_synced dk \<and> insert_knowledge now dk i kv = Inr dk'
      \<and> knowledge_row now i kv = Some kr \<and> mk q (knowledge_doc kr)"
  then have syn: "knowledge_synced dk" and ins: "insert_knowledge now dk i kv = Inr dk'"
    and row: "knowledge_row now i kv = Some kr" and m: "mk q (knowledge_doc kr)"
    by simp_all
  show "i \<in> set (search_knowledge mk dk' q)"
    "i \<notin> set (fts_match mk (knowledge_fts (delete_knowledge dk' i)) q)"
    "i \<notin> set (search_knowledge mk (delete_knowledge dk' i) q)"
    by (rule knowledge_round_trip [where m = mk and q = q, OF syn ins row m])+
next
  assume a: "transcript_synced dt \<and> insert_transcript now dt i tv = Inr dt'
      \<and> transcript_row now i tv = Some tr \<and> mt q (t_full_text tr)"
  then have syn: "transcript_synced dt" and ins: "insert_transcript now dt i tv = Inr dt'"
    and row: "transcript_row now i tv = Some tr" and m: "mt q (t_full_text tr)"
    by simp_all
  show "i \<in> set (search_transcripts mt dt' q)"
    "i \<notin> set (fts_match mt (transcript_fts (delete_transcript dt' i)) q)"
    "i \<notin> set (search_transcripts mt (delete_transcript dt' i) q)"
    by (rule transcript_round_trip [where m = mt and q = q, OF syn ins row m])+
next
  assume a: "video_synced dv \<and> insert_video now dv i vv = Inr dv'
      \<and> video_row now i vv = Some vr \<and> mv q (video_doc vr)"
  then have syn: "video_synced dv" and ins: "insert_video now dv i vv = Inr dv'"
    and row: "video_row now i vv = Some vr" and m: "mv q (video_doc vr)"
    by simp_all
  show "i \<in> set (search_videos mv dv' q)"
    "i \<notin> set (fts_match mv (video_fts (delete_video dv' i)) q)"
    "i \<notin> set (search_videos mv (delete_video dv' i) q)"
    by (rule video_round_trip [where m = mv and q = q, OF syn ins row m])+
qed


theorem C2_search_round_trip_witness:
  "(\<exists>d'. insert_knowledge ''t7'' demo_store 2 (demo_knowledge\<lparr>kv_title := Some ''Thermals''\<rparr>) = Inr d'
      \<and> 2 \<in> set (search_knowledge (\<lambda>q doc. q = fst doc) d' ''Thermals'')
      \<and> 2 \<notin> set (fts_match (\<lambda>q doc. q = fst doc) (knowledge_fts (delete_knowledge d' 2)) ''Thermals'')
      \<and> 2 \<notin> set (search_knowledge (\<lambda>q doc. q = fst doc) (delete_knowledge d' 2) ''Thermals''))
   \<and> (\<exists>d'. insert_transcript ''t7'' (delete_transcript demo_store 1) 2
              (demo_transcript\<lparr>tv_full_text := Some ''wallow in august''\<rparr>) = Inr d'
      \<and> 2 \<in> set (search_transcripts (\<lambda>q doc. q = doc) d' ''wallow in august'')
      \<and> 2 \<notin> set (fts_match (\<lambda>q doc. q = doc) (transcript_fts (delete_transcript d' 2)) ''wallow in august'')
      \<and> 2 \<notin> set (search_transcripts (\<lambda>q doc. q = doc) (delete_transcript d' 2) ''wallow in august''))
   \<and> (\<exists>d'. insert_video ''t7'' demo_store 2
              (demo_video\<lparr>vv_video_id := Some ''vid-002'', vv_title := Some ''Glassing ridges''\<rparr>) = Inr d'
      \<and> 2 \<in> set (search_videos (\<lambda>q doc. q = fst doc) d' ''Glassing ridges'')
      \<and> 2 \<notin> set (fts_match (\<lambda>q doc. q = fst doc) (video_fts (delete_video d' 2)) ''Glassing ridges'')
      \<and> 2 \<notin> set (search_videos (\<lambda>q doc. q = fst doc) (delete_video d' 2) ''Glassing ridges''))"
proof -
  let ?kv = "demo_knowledge\<lparr>kv_title := Some ''Thermals''\<rparr>"
  let ?tv = "demo_transcript\<lparr>tv_full_text := Some ''wallow in august''\<rparr>"
  let ?vv = "demo_video\<lparr>vv_video_id := Some ''vid-002'', vv_title := Some ''Glassing ridges''\<rparr>"
  let ?dt = "delete_transcript demo_store 1"
  have dt: "transcripts ?dt = []" "transcript_fts ?dt = []" "videos ?dt = videos demo_store"
    by (simp_all add: delete_transcript_def delete_transcripts_where_eq demo_store_value
        fts_delete_def)
  have syn: "knowledge_synced demo_store" "transcript_synced ?dt" "video_synced demo_store"
    by (simp_all add: knowledge_synced_def transcript_synced_def video_synced_def dt)
       (simp_all add: demo_store_value knowledge_doc_def video_doc_def)
  obtain kr where kr: "knowledge_row ''t7'' 2 ?kv = Some kr" "k_title kr = ''Thermals''"
    "knowledge_check kr" "k_video_id kr = 1"
    by (simp add: knowledge_row_def demo_knowledge_def check_defs)
  obtain tr where tr: "transcript_row ''t7'' 2 ?tv = Some tr" "t_full_text tr = ''wallow in august''"
    "t_video_id tr = 1"
    by (simp add: transcript_row_def demo_transcript_def)
  obtain vr where vr: "video_row ''t7'' 2 ?vv = Some vr" "v_title vr = ''Glassing ridges''"
    "video_check vr" "v_video_id vr = ''vid-002''" "v_channel_id vr = 1"
    by (simp add: video_row_def demo_video_def check_defs)
  have vids: "v_id ` set (videos demo_store) = {1}"
    by (simp add: demo_store_value)
  obtain dk' where dk: "insert_knowledge ''t7'' demo_store 2 ?kv = Inr dk'"
    using kr by (simp add: insert_knowledge_def demo_store_value)
  obtain dt' where dt': "insert_transcript ''t7'' ?dt 2 ?tv = Inr dt'"
    using tr by (simp add: insert_transcript_def dt vids)
  obtain dv' where dv: "insert_video ''t7'' demo_store 2 ?vv = Inr dv'"
    using vr by (simp add: insert_video_def demo_store_value)
  note C = C2_search_round_trip [where now = "''t7''" and i = 2
      and dk = demo_store and kv = ?kv and dk' = dk' and kr = kr and mk = "\<lambda>q doc. q = fst doc"
      and dt = ?dt and tv = ?tv and dt' = dt' and tr = tr and mt = "\<lambda>q doc. q = doc"
      and dv = demo_store and vv = ?vv and dv' = dv' and vr = vr and mv = "\<lambda>q doc. q = fst doc"]
  from C [where q = "''Thermals''"] syn dk kr
  have 1: "2 \<in> set (search_knowledge (\<lambda>q doc. q = fst doc) dk' ''Thermals'')
      \<and> 2 \<notin> set (fts_match (\<lambda>q doc. q = fst doc) (knowledge_fts (delete_knowledge dk' 2)) ''Thermals'')
      \<and> 2 \<notin> set (search_knowledge (\<lambda>q doc. q = fst doc) (delete_knowledge dk' 2) ''Thermals'')"
    by (simp add: knowledge_doc_def)
  from C [where q = "''wallow in august''"] syn dt' tr
  have 2: "2 \<in> set (search_transcripts (\<lambda>q doc. q = doc) dt' ''wallow in august'')
      \<and> 2 \<notin> set (fts_match (\<lambda>q doc. q = doc) (transcript_fts (delete_transcript dt' 2)) ''wallow in august'')
      \<and> 2 \<notin> set (search_transcripts (\<lambda>q doc. q = doc) (delete_transcript dt' 2) ''wallow in august'')"
    by simp
  from C [where q = "''Glassing ridges''"] syn dv vr
  have 3: "2 \<in> set (search_videos (\<lambda>q doc. q = fst doc) dv' ''Glassing ridges'')
      \<and> 2 \<notin> set (fts_match (\<lambda>q doc. q = fst doc) (video_fts (delete_video dv' 2)) ''Glassing ridges'')
      \<and> 2 \<notin> set (search_videos (\<lambda>q doc. q = fst doc) (delete_video dv' 2) ''Glassing ridges'')"
    by (simp add: video_doc_def)
  from 1 2 3 dk dt' dv show ?thesis by blast
qed


section \<open>Index consistency under every statement\<close>

text \<open>Every statement but an update of a transcript keeps the three indexes in sync.\<close>

lemma fts_synced_step:
  assumes "keys_distinct d" "fts_synced d" "exec_stmt s d = Inr d'"
    "\<forall>i r. s \<noteq> UpdateTranscript i r"
  shows "fts_synced d'"
  using assms knowledge_synced_step [of d s d'] video_synced_step [of d s d']
    transcript_synced_step [of d s d']
  by (simp add: fts_synced_def)

text \<open>
  C1. The claim asks that after every insert, update or delete on \<open>videos\<close>,
  \<open>transcripts\<close> or \<open>knowledge_entries\<close> the index holds one document per source row,
  equal to its indexed columns, and none for a deleted row. \<open>transcripts\<close> has no
  \<open>AFTER UPDATE\<close> trigger: on the example store, whose indexes are in sync, updating the
  text of transcript 1 succeeds and leaves the old text in \<open>transcript_fts\<close>, so the
  index is out of sync; deleting the transcript afterwards leaves that document in the
  index although the row is gone.
\<close>

theorem C1_transcript_update_leaves_index_stale:
  "reachable demo_store
   \<and> fts_synced demo_store
   \<and> fst (execute demo_store
        (UpdateTranscript 1 ((hd (transcripts demo_store))\<lparr>t_full_text := ''wallow in august''\<rparr>)))
       = None
   \<and> map (\<lambda>t. (t_id t, t_full_text t))
        (transcripts (snd (execute demo_store
          (UpdateTranscript 1 ((hd (transcripts demo_store))\<lparr>t_full_text := ''wallow in august''\<rparr>)))))
       = [(1, ''wallow in august'')]
   \<and> transcript_fts (snd (execute demo_store
          (UpdateTranscript 1 ((hd (transcripts demo_store))\<lparr>t_full_text := ''wallow in august''\<rparr>))))
       = [(1, ''bugle at dawn'')]
   \<and> \<not> fts_synced (snd (execute demo_store
          (UpdateTranscript 1 ((hd (transcripts demo_store))\<lparr>t_full_text := ''wallow in august''\<rparr>))))
   \<and> transcripts (delete_transcript (snd (execute demo_store
          (UpdateTranscript 1 ((hd (transcripts demo_store))\<lparr>t_full_text := ''wallow in august''\<rparr>)))) 1)
       = []
   \<and> transcript_fts (delete_transcript (snd (execute demo_store
          (UpdateTranscript 1 ((hd (transcripts demo_store))\<lparr>t_full_text := ''wallow in august''\<rparr>)))) 1)
       = [(1, ''bugle at dawn'')]"
proof -
  let ?s = "UpdateTranscript 1 ((hd (transcripts demo_store))\<lparr>t_full_text := ''wallow in august''\<rparr>)"
  have syn: "fts_synced demo_store"
    by (simp add: fts_synced_def knowledge_synced_def transcript_synced_def video_synced_def
        demo_store_value knowledge_doc_def video_doc_def)
  have ex: "execute demo_store ?s =
     (None, demo_store\<lparr>transcripts :=
        [(hd (transcripts demo_store))\<lparr>t_full_text := ''wallow in august''\<rparr>]\<rparr>)"
    by (simp add: execute_def update_transcript_def demo_store_value Let_def replace_row_def
        others_def)
  have 1: "map (\<lambda>t. (t_id t, t_full_text t)) (transcripts (snd (execute demo_store ?s)))
       = [(1, ''wallow in august'')]"
    and 2: "transcript_fts (snd (execute demo_store ?s)) = [(1, ''bugle at dawn'')]"
    unfolding ex by (simp_all add: demo_store_value)
  from 1 2 have 3: "\<not> fts_synced (snd (execute demo_store ?s))"
    by (simp add: fts_synced_def transcript_synced_def)
  have 4: "transcripts (delete_transcript (snd (execute demo_store ?s)) 1) = []"
    and 5: "transcript_fts (delete_transcript (snd (execute demo_store ?s)) 1) = [(1, ''bugle at dawn'')]"
    unfolding ex delete_transcript_index
    by (simp_all add: demo_store_value fts_delete_def)
  from reachable_demo syn ex 1 2 3 4 5 show ?thesis by simp
qed


end
